theory Spec2Isabelle
  imports Complex_Main
begin

section \<open>Python numbers\<close>

text \<open>
  The slicer mixes Python ints (image and page sizes, page numbers, canvas coordinates)
  with Python floats (zoom, pan, the start offset once it was set with the mouse).  Ints
  are \<^typ>\<open>int\<close>; a float is the real number it stands for.  The callbacks are given
  twice: first computing in exact arithmetic, then, under the names that end in
  \<open>_f64\<close>, rounding every floating-point operation as the interpreter does.
\<close>

datatype error = ZeroDivisionError | ValueError | TypeError | AttributeError | OSError

definition py_int :: "real \<Rightarrow> int" where
  \<comment> \<open>\<^verbatim>\<open>int(x)\<close> on a float: truncation toward zero\<close>
  "py_int x = (if 0 \<le> x then \<lfloor>x\<rfloor> else \<lceil>x\<rceil>)"

definition py_round :: "real \<Rightarrow> int" where
  \<comment> \<open>\<^verbatim>\<open>round(x)\<close>: to the nearest integer, a tie goes to the even one\<close>
  "py_round x =
     (let f = \<lfloor>x\<rfloor>; d = x - of_int f
      in if d < 1 / 2 then f else if 1 / 2 < d then f + 1 else if even f then f else f + 1)"

definition floordiv :: "real \<Rightarrow> int \<Rightarrow> real" where
  \<comment> \<open>\<^verbatim>\<open>x // p\<close> for a float \<open>x\<close> and \<open>p \<noteq> 0\<close>: a float with an integer value\<close>
  "floordiv x p = of_int \<lfloor>x / of_int p\<rfloor>"

definition math_ceil :: "real \<Rightarrow> int" where
  "math_ceil x = \<lceil>x\<rceil>"

definition PAGE_WIDTH_INCHES :: real where
  "PAGE_WIDTH_INCHES = 11"

definition PAGE_HEIGHT_INCHES :: real where
  "PAGE_HEIGHT_INCHES = 17 / 2"

section \<open>Strings and paths\<close>

text \<open>
  \<^verbatim>\<open>os.path\<close> in its POSIX flavour, and the format \<^verbatim>\<open>{page_num:03d}\<close>.
\<close>

definition os_path_basename :: "string \<Rightarrow> string" where
  "os_path_basename p = rev (takeWhile (\<lambda>c. c \<noteq> CHR ''/'') (rev p))"

definition os_path_dirname :: "string \<Rightarrow> string" where
  "os_path_dirname p =
     (let head = rev (dropWhile (\<lambda>c. c \<noteq> CHR ''/'') (rev p))
      in if head \<noteq> [] \<and> \<not> list_all (\<lambda>c. c = CHR ''/'') head
         then rev (dropWhile (\<lambda>c. c = CHR ''/'') (rev head)) else head)"

definition splitext_root :: "string \<Rightarrow> string" where
  \<comment> \<open>\<^verbatim>\<open>os.path.splitext(name)[0]\<close> for a name without a separator\<close>
  "splitext_root name =
     (if CHR ''.'' \<in> set name then
        (let root = rev (tl (dropWhile (\<lambda>c. c \<noteq> CHR ''.'') (rev name)))
         in if list_all (\<lambda>c. c = CHR ''.'') root then name else root)
      else name)"

definition os_path_join :: "string \<Rightarrow> string \<Rightarrow> string" where
  "os_path_join a b =
     (if b \<noteq> [] \<and> hd b = CHR ''/'' then b
      else if a = [] \<or> last a = CHR ''/'' then a @ b
      else a @ ''/'' @ b)"

fun digits10 :: "nat \<Rightarrow> string" where
  "digits10 n =
     (if n < 10 then [''0123456789'' ! n]
      else digits10 (n div 10) @ [''0123456789'' ! (n mod 10)])"

declare digits10.simps [simp del]

definition format_03d :: "int \<Rightarrow> string" where
  "format_03d i =
     (if i < 0
      then (let ds = digits10 (nat (- i)) in ''-'' @ replicate (2 - length ds) CHR ''0'' @ ds)
      else (let ds = digits10 (nat i) in replicate (3 - length ds) CHR ''0'' @ ds))"

section \<open>Rasters\<close>

text \<open>
  The imaging library is a collaborator.  A raster is its size, its mode and its pixels, a
  pixel being the list of its band values; the operations the slicer uses are modelled as
  the library documents them: \<^verbatim>\<open>crop\<close> refuses a box whose right edge is left
  of its left edge, rounds the box to integers and reads zeros outside the source;
  \<^verbatim>\<open>new\<close> makes a canvas of one colour, when the colour fits the mode;
  \<^verbatim>\<open>paste\<close> overwrites a region of the canvas; \<^verbatim>\<open>save\<close> as PNG
  refuses the modes that format cannot store.
\<close>

datatype mode =
  Mode_1 | Mode_L | Mode_P | Mode_RGB | Mode_RGBA | Mode_CMYK | Mode_YCbCr | Mode_LAB
  | Mode_HSV | Mode_I | Mode_F | Mode_LA | Mode_PA | Mode_RGBX | Mode_I16

fun bands :: "mode \<Rightarrow> nat" where
  "bands Mode_1 = 1"
| "bands Mode_L = 1"
| "bands Mode_P = 1"
| "bands Mode_RGB = 3"
| "bands Mode_RGBA = 4"
| "bands Mode_CMYK = 4"
| "bands Mode_YCbCr = 3"
| "bands Mode_LAB = 3"
| "bands Mode_HSV = 3"
| "bands Mode_I = 1"
| "bands Mode_F = 1"
| "bands Mode_LA = 2"
| "bands Mode_PA = 2"
| "bands Mode_RGBX = 4"
| "bands Mode_I16 = 1"

type_synonym pixel = "nat list"

record image =
  im_w :: int
  im_h :: int
  mode :: mode
  getpixel :: "int \<Rightarrow> int \<Rightarrow> pixel"

definition white :: "nat \<times> nat \<times> nat" where
  \<comment> \<open>the colour \<^verbatim>\<open>(255, 255, 255)\<close> the slicer fills a page with\<close>
  "white = (255, 255, 255)"

definition fill_ink :: "mode \<Rightarrow> nat \<times> nat \<times> nat \<Rightarrow> error + pixel" where
  \<comment> \<open>the pixel value the library stores for a colour given as a tuple of three ints: a
      palette raster enters the colour in its fresh palette, at index 0; a raster of
      three bands takes the tuple, one of four bands adds the value 255; a raster of one
      or two bands refuses a tuple of three\<close>
  "fill_ink m colour =
     (case colour of (r, g, b) \<Rightarrow>
        if m = Mode_P then Inr [0]
        else if bands m = 3 then Inr [r, g, b]
        else if bands m = 4 then Inr [r, g, b, 255]
        else Inl TypeError)"

fun png_stores :: "mode \<Rightarrow> bool" where
  \<comment> \<open>the modes the PNG encoder writes\<close>
  "png_stores Mode_1 = True"
| "png_stores Mode_L = True"
| "png_stores Mode_P = True"
| "png_stores Mode_RGB = True"
| "png_stores Mode_RGBA = True"
| "png_stores Mode_I = True"
| "png_stores Mode_I16 = True"
| "png_stores Mode_LA = True"
| "png_stores m = False"

definition crop :: "image \<Rightarrow> real \<times> real \<times> real \<times> real \<Rightarrow> error + image" where
  "crop im box =
     (case box of (left, upper, right, lower) \<Rightarrow>
        if right < left then Inl ValueError
        else if lower < upper then Inl ValueError
        else
          (let x0 = py_round left; y0 = py_round upper;
               x1 = py_round right; y1 = py_round lower
           in Inr \<lparr>im_w = x1 - x0, im_h = y1 - y0, mode = mode im,
                   getpixel = (\<lambda>x y.
                     if 0 \<le> x + x0 \<and> x + x0 < im_w im \<and> 0 \<le> y + y0 \<and> y + y0 < im_h im
                     then getpixel im (x + x0) (y + y0)
                     else replicate (bands (mode im)) 0)\<rparr>))"

definition image_new :: "mode \<Rightarrow> int \<times> int \<Rightarrow> nat \<times> nat \<times> nat \<Rightarrow> error + image" where
  "image_new m sz colour =
     (case sz of (w, h) \<Rightarrow>
        if w < 0 \<or> h < 0 then Inl ValueError
        else
          (case fill_ink m colour of
             Inl err \<Rightarrow> Inl err
           | Inr v \<Rightarrow> Inr \<lparr>im_w = w, im_h = h, mode = m, getpixel = (\<lambda>x y. v)\<rparr>))"

definition paste :: "image \<Rightarrow> image \<Rightarrow> int \<times> int \<Rightarrow> image" where
  "paste canvas im pos =
     (case pos of (x0, y0) \<Rightarrow>
        canvas\<lparr>getpixel := (\<lambda>x y.
          if x0 \<le> x \<and> x < x0 + im_w im \<and> y0 \<le> y \<and> y < y0 + im_h im
          then getpixel im (x - x0) (y - y0) else getpixel canvas x y)\<rparr>)"

section \<open>The application object\<close>

text \<open>
  The fields of \<^verbatim>\<open>PanoramaSlicer\<close>, with what the callbacks read from and write to
  their surroundings: the canvas size the toolkit reports, the files written so far and
  the dialogs shown so far.  Label texts and the rendered preview are display only and
  are left out.
\<close>

datatype message =
  Warning_load_and_output_dir
  | Error_failed_to_load error
  | Confirm_export_all int
  | Confirm_export_visible int int int
  | Info_exported int

record app =
  original_image :: "image option"
  image_path :: "string option"
  img_width :: int
  img_height :: int
  pixels_per_inch :: real
  page_width_px :: int
  page_height_px :: int
  pages_x :: int
  zoom :: real
  pan_x :: real
  pan_y :: real
  right_to_left :: bool
  start_offset :: real
  output_dir :: "string option"
  canvas_w :: int
  canvas_h :: int
  files :: "(string \<times> image) list"
  messages :: "message list"

datatype outcome = Done app | Raised error app

fun state_of :: "outcome \<Rightarrow> app" where
  \<comment> \<open>the object after a callback: the toolkit reports an exception of a callback and
      goes on with the fields as the callback left them\<close>
  "state_of (Done s) = s"
| "state_of (Raised err s) = s"

definition init :: "int \<Rightarrow> int \<Rightarrow> app" where
  \<comment> \<open>\<^verbatim>\<open>__init__\<close>, for a canvas of the given size\<close>
  "init cw ch =
     \<lparr>original_image = None, image_path = None, img_width = 0, img_height = 0,
      pixels_per_inch = 0, page_width_px = 0, page_height_px = 0, pages_x = 0,
      zoom = 1 / 10, pan_x = 0, pan_y = 0, right_to_left = True, start_offset = 0,
      output_dir = None, canvas_w = cw, canvas_h = ch, files = [], messages = []\<rparr>"

record event =
  ev_x :: int
  ev_y :: int
  ev_num :: int
  ev_delta :: "int option"

section \<open>The view\<close>

definition refresh_view :: "app \<Rightarrow> outcome" where
  \<comment> \<open>the pan clamp of \<^verbatim>\<open>refresh_view\<close>; what it draws is not part of the state\<close>
  "refresh_view s =
     (case original_image s of
        None \<Rightarrow> Done s
      | Some im \<Rightarrow>
          if zoom s = 0 then Raised ZeroDivisionError s
          else
            (let view_w = of_int (canvas_w s) / zoom s;
                 view_h = of_int (canvas_h s) / zoom s;
                 max_pan_x = max 0 (of_int (img_width s) - view_w);
                 max_pan_y = max 0 (of_int (img_height s) - view_h)
             in Done (s\<lparr>pan_x := max 0 (min (pan_x s) max_pan_x),
                         pan_y := max 0 (min (pan_y s) max_pan_y)\<rparr>)))"

definition fit_to_window :: "app \<Rightarrow> outcome" where
  "fit_to_window s =
     (case original_image s of
        None \<Rightarrow> Done s
      | Some im \<Rightarrow>
          (let (cw, ch) = (if canvas_w s < 10 \<or> canvas_h s < 10
                           then (1400, 800) else (canvas_w s, canvas_h s))
           in if img_width s = 0 then Raised ZeroDivisionError s
              else if img_height s = 0 then Raised ZeroDivisionError s
              else
                (let zoom_x = of_int cw / of_int (img_width s);
                     zoom_y = of_int ch / of_int (img_height s)
                 in refresh_view
                      (s\<lparr>zoom := min zoom_x zoom_y * (95 / 100), pan_x := 0, pan_y := 0\<rparr>))))"

definition zoom_100 :: "app \<Rightarrow> outcome" where
  "zoom_100 s =
     (case original_image s of
        None \<Rightarrow> Done s
      | Some im \<Rightarrow> refresh_view (s\<lparr>zoom := 1\<rparr>))"

definition on_scroll :: "app \<Rightarrow> event \<Rightarrow> outcome" where
  "on_scroll s e =
     (case original_image s of
        None \<Rightarrow> Done s
      | Some im \<Rightarrow>
          (let factor = (if ev_num e = 4 \<or> (case ev_delta e of None \<Rightarrow> False | Some d \<Rightarrow> 0 < d)
                         then 12 / 10 else 1 / (12 / 10))
           in if zoom s = 0 then Raised ZeroDivisionError s
              else
                (let mouse_x_img = pan_x s + of_int (ev_x e) / zoom s;
                     mouse_y_img = pan_y s + of_int (ev_y e) / zoom s;
                     z = max (1 / 100) (min 5 (zoom s * factor))
                 in refresh_view
                      (s\<lparr>zoom := z,
                         pan_x := mouse_x_img - of_int (ev_x e) / z,
                         pan_y := mouse_y_img - of_int (ev_y e) / z\<rparr>))))"

definition pan_by :: "app \<Rightarrow> int \<Rightarrow> int \<Rightarrow> outcome" where
  "pan_by s dx dy =
     (case original_image s of
        None \<Rightarrow> Done s
      | Some im \<Rightarrow>
          if zoom s = 0 then Raised ZeroDivisionError s
          else refresh_view (s\<lparr>pan_x := pan_x s + of_int dx / zoom s,
                                pan_y := pan_y s + of_int dy / zoom s\<rparr>))"

section \<open>Pagination\<close>

definition page_num_at :: "app \<Rightarrow> real \<Rightarrow> error + int" where
  \<comment> \<open>the page under an image coordinate, as \<^verbatim>\<open>on_mouse_move\<close> and
      \<^verbatim>\<open>export_clicked_page\<close> both compute it\<close>
  "page_num_at s img_x =
     (let dist_from_start =
            (if right_to_left s
             then (of_int (img_width s) - start_offset s) - img_x
             else img_x - start_offset s)
      in if page_width_px s = 0 then Inl ZeroDivisionError
         else Inr (py_int (floordiv dist_from_start (page_width_px s)) + 1))"

datatype page_info = Page_of int int | Set_start_here

definition on_mouse_move :: "app \<Rightarrow> event \<Rightarrow> error + page_info option" where
  \<comment> \<open>the text of the page label; \<open>None\<close> when nothing is loaded\<close>
  "on_mouse_move s e =
     (case original_image s of
        None \<Rightarrow> Inr None
      | Some im \<Rightarrow>
          if zoom s = 0 then Inl ZeroDivisionError
          else
            (case page_num_at s (pan_x s + of_int (ev_x e) / zoom s) of
               Inl err \<Rightarrow> Inl err
             | Inr page_num \<Rightarrow>
                 if 1 \<le> page_num \<and> page_num \<le> pages_x s
                 then Inr (Some (Page_of page_num (pages_x s)))
                 else Inr (Some Set_start_here)))"

definition on_right_click :: "app \<Rightarrow> event \<Rightarrow> outcome" where
  "on_right_click s e =
     (case original_image s of
        None \<Rightarrow> Done s
      | Some im \<Rightarrow>
          if zoom s = 0 then Raised ZeroDivisionError s
          else
            (let img_x = pan_x s + of_int (ev_x e) / zoom s;
                 raw = (if right_to_left s then of_int (img_width s) - img_x else img_x);
                 clamped = max 0 (min raw (of_int (img_width s - page_width_px s)));
                 s1 = s\<lparr>start_offset := clamped\<rparr>;
                 remaining_width = of_int (img_width s) - clamped
             in if page_width_px s = 0 then Raised ZeroDivisionError s1
                else refresh_view
                       (s1\<lparr>pages_x := math_ceil (remaining_width / of_int (page_width_px s))\<rparr>)))"

definition reset_start :: "app \<Rightarrow> outcome" where
  "reset_start s =
     (let s1 = s\<lparr>start_offset := 0\<rparr>
      in case original_image s of
           None \<Rightarrow> refresh_view s1
         | Some im \<Rightarrow>
             if page_width_px s = 0 then Raised ZeroDivisionError s1
             else refresh_view
                    (s1\<lparr>pages_x := math_ceil (of_int (img_width s) / of_int (page_width_px s))\<rparr>))"

definition on_direction_change :: "app \<Rightarrow> outcome" where
  "on_direction_change s = reset_start s"

definition page_rect :: "app \<Rightarrow> int \<Rightarrow> real \<times> real" where
  \<comment> \<open>\<open>(left, right)\<close> as \<^verbatim>\<open>export_page\<close> and \<^verbatim>\<open>get_page_image\<close> both compute them\<close>
  "page_rect s page_num =
     (if right_to_left s then
        (let start_x = of_int (img_width s) - start_offset s;
             right = start_x - of_int ((page_num - 1) * page_width_px s);
             left = max 0 (right - of_int (page_width_px s))
         in (left, right))
      else
        (let start_x = start_offset s;
             left = start_x + of_int ((page_num - 1) * page_width_px s);
             right = min (left + of_int (page_width_px s)) (of_int (img_width s))
         in (left, right)))"

definition paginated :: "app \<Rightarrow> bool" where
  \<comment> \<open>a loaded raster of positive width, a positive page width, a clamped start offset and
      the page count that belongs to them\<close>
  "paginated s \<longleftrightarrow>
     0 < img_width s \<and> 0 < page_width_px s \<and>
     0 \<le> start_offset s \<and> start_offset s \<le> max 0 (of_int (img_width s - page_width_px s)) \<and>
     pages_x s = \<lceil>(of_int (img_width s) - start_offset s) / of_int (page_width_px s)\<rceil>"

section \<open>Page material and export\<close>

definition get_page_image :: "app \<Rightarrow> int \<Rightarrow> error + image" where
  "get_page_image s page_num =
     (case page_rect s page_num of (left, right) \<Rightarrow>
        (case original_image s of
           None \<Rightarrow> Inl AttributeError
         | Some im \<Rightarrow>
             (case crop im (left, 0, right, of_int (img_height s)) of
                Inl err \<Rightarrow> Inl err
              | Inr page_img \<Rightarrow>
                  if im_w page_img \<noteq> page_width_px s then
                    (case image_new (mode im) (page_width_px s, page_height_px s) white of
                       Inl err \<Rightarrow> Inl err
                     | Inr full_page \<Rightarrow>
                         if right_to_left s
                         then Inr (paste full_page page_img (page_width_px s - im_w page_img, 0))
                         else Inr (paste full_page page_img (0, 0)))
                  else Inr page_img)))"

definition page_crop_width :: "app \<Rightarrow> int \<Rightarrow> int" where
  \<comment> \<open>\<^verbatim>\<open>page_img.size[0]\<close> of the crop, before any padding\<close>
  "page_crop_width s page_num =
     (case page_rect s page_num of (left, right) \<Rightarrow> py_round right - py_round left)"

definition export_page :: "(string \<Rightarrow> bool) \<Rightarrow> app \<Rightarrow> int \<Rightarrow> outcome" where
  \<comment> \<open>the crop and the padding of \<^verbatim>\<open>export_page\<close> are those of \<^verbatim>\<open>get_page_image\<close>,
      line for line; \<open>writable\<close> says whether the file at a path can be written; the
      encoder refuses a mode that PNG cannot store\<close>
  "export_page writable s page_num =
     (case get_page_image s page_num of
        Inl err \<Rightarrow> Raised err s
      | Inr page_img \<Rightarrow>
          (case image_path s of
             None \<Rightarrow> Raised TypeError s
           | Some path \<Rightarrow>
               (let base_name = splitext_root (os_path_basename path);
                    filename = base_name @ ''_page'' @ format_03d page_num @ ''.png''
                in case output_dir s of
                     None \<Rightarrow> Raised TypeError s
                   | Some dir \<Rightarrow>
                       (let output_path = os_path_join dir filename
                        in if \<not> writable output_path then Raised OSError s
                           else if \<not> png_stores (mode page_img) then Raised OSError s
                           else Done (s\<lparr>files := files s @ [(output_path, page_img)]\<rparr>)))))"

definition export_clicked_page :: "(string \<Rightarrow> bool) \<Rightarrow> app \<Rightarrow> int \<Rightarrow> int \<Rightarrow> outcome" where
  "export_clicked_page writable s canvas_x canvas_y =
     (if original_image s = None \<or> output_dir s = None \<or> output_dir s = Some []
      then Done (s\<lparr>messages := messages s @ [Warning_load_and_output_dir]\<rparr>)
      else if zoom s = 0 then Raised ZeroDivisionError s
      else
        (case page_num_at s (pan_x s + of_int canvas_x / zoom s) of
           Inl err \<Rightarrow> Raised err s
         | Inr page_num \<Rightarrow>
             if 1 \<le> page_num \<and> page_num \<le> pages_x s
             then export_page writable s page_num else Done s))"

fun export_each :: "(string \<Rightarrow> bool) \<Rightarrow> app \<Rightarrow> int list \<Rightarrow> outcome" where
  \<comment> \<open>the \<^verbatim>\<open>for page_num in range(...)\<close> loop of both batch exports: an exception
      of \<^verbatim>\<open>export_page\<close> is not caught and ends the loop\<close>
  "export_each writable s [] = Done s"
| "export_each writable s (page_num # rest) =
     (case export_page writable s page_num of
        Raised err s' \<Rightarrow> Raised err s'
      | Done s' \<Rightarrow> export_each writable s' rest)"

definition export_all_pages :: "(string \<Rightarrow> bool) \<Rightarrow> bool \<Rightarrow> app \<Rightarrow> outcome" where
  \<comment> \<open>\<open>confirm\<close> is the user's answer to the yes/no dialog\<close>
  "export_all_pages writable confirm s =
     (if original_image s = None \<or> output_dir s = None \<or> output_dir s = Some []
      then Done (s\<lparr>messages := messages s @ [Warning_load_and_output_dir]\<rparr>)
      else
        (let total = pages_x s;
             s1 = s\<lparr>messages := messages s @ [Confirm_export_all total]\<rparr>
         in if \<not> confirm then Done s1
            else
              (case export_each writable s1 [1..pages_x s] of
                 Raised err s' \<Rightarrow> Raised err s'
               | Done s' \<Rightarrow> Done (s'\<lparr>messages := messages s' @ [Info_exported total]\<rparr>))))"

definition visible_page_range :: "app \<Rightarrow> error + int \<times> int" where
  \<comment> \<open>\<open>(start_page, end_page)\<close> as \<^verbatim>\<open>get_visible_page_numbers\<close> and
      \<^verbatim>\<open>export_visible_pages\<close> both compute them\<close>
  "visible_page_range s =
     (if zoom s = 0 then Inl ZeroDivisionError
      else
        (let view_left = pan_x s;
             view_right = pan_x s + of_int (canvas_w s) / zoom s
         in if page_width_px s = 0 then Inl ZeroDivisionError
            else if right_to_left s then
              (let start_x = of_int (img_width s) - start_offset s;
                   start_page = max 1 (py_int (floordiv (start_x - view_right) (page_width_px s)) + 1);
                   end_page = min (pages_x s)
                                (py_int (floordiv (start_x - view_left) (page_width_px s)) + 1)
               in Inr (start_page, end_page))
            else
              (let start_x = start_offset s;
                   start_page = max 1 (py_int (floordiv (view_left - start_x) (page_width_px s)) + 1);
                   end_page = min (pages_x s)
                                (py_int (floordiv (view_right - start_x) (page_width_px s)) + 1)
               in Inr (start_page, end_page))))"

definition get_visible_page_numbers :: "app \<Rightarrow> error + int list" where
  "get_visible_page_numbers s =
     (case visible_page_range s of
        Inl err \<Rightarrow> Inl err
      | Inr (start_page, end_page) \<Rightarrow> Inr [start_page..end_page])"

definition export_visible_pages :: "(string \<Rightarrow> bool) \<Rightarrow> bool \<Rightarrow> app \<Rightarrow> outcome" where
  "export_visible_pages writable confirm s =
     (if original_image s = None \<or> output_dir s = None \<or> output_dir s = Some []
      then Done (s\<lparr>messages := messages s @ [Warning_load_and_output_dir]\<rparr>)
      else
        (case visible_page_range s of
           Inl err \<Rightarrow> Raised err s
         | Inr (start_page, end_page) \<Rightarrow>
             (let count = end_page - start_page + 1;
                  s1 = s\<lparr>messages := messages s @ [Confirm_export_visible count start_page end_page]\<rparr>
              in if \<not> confirm then Done s1
                 else
                   (case export_each writable s1 [start_page..end_page] of
                      Raised err s' \<Rightarrow> Raised err s'
                    | Done s' \<Rightarrow> Done (s'\<lparr>messages := messages s' @ [Info_exported count]\<rparr>)))))"

section \<open>Loading\<close>

text \<open>
  The decoder is a collaborator: for the chosen path, \<^verbatim>\<open>Image.open\<close> raises, or it
  returns an image object whose \<^verbatim>\<open>load()\<close> raises, or both succeed.
\<close>

datatype decoded = Open_raises error | Load_raises image error | Loaded image

definition load_image_body :: "decoded \<Rightarrow> app \<Rightarrow> string \<Rightarrow> outcome" where
  \<comment> \<open>the \<^verbatim>\<open>try\<close> block of \<^verbatim>\<open>load_image\<close>\<close>
  "load_image_body dec s path =
     (case dec of
        Open_raises err \<Rightarrow> Raised err s
      | Load_raises im err \<Rightarrow> Raised err (s\<lparr>original_image := Some im\<rparr>)
      | Loaded im \<Rightarrow>
          (let s1 = s\<lparr>original_image := Some im, image_path := Some path,
                       img_width := im_w im, img_height := im_h im\<rparr>;
               ppi = of_int (img_height s1) / PAGE_HEIGHT_INCHES;
               s2 = s1\<lparr>pixels_per_inch := ppi,
                        page_width_px := py_int (ppi * PAGE_WIDTH_INCHES),
                        page_height_px := img_height s1,
                        start_offset := 0\<rparr>
           in if page_width_px s2 = 0 then Raised ZeroDivisionError s2
              else
                (let s3 = s2\<lparr>pages_x :=
                            math_ceil (of_int (img_width s2) / of_int (page_width_px s2))\<rparr>;
                     s4 = (if output_dir s3 = None \<or> output_dir s3 = Some []
                           then s3\<lparr>output_dir := Some (os_path_dirname path)\<rparr> else s3)
                 in fit_to_window s4)))"

definition load_image :: "decoded \<Rightarrow> app \<Rightarrow> string \<Rightarrow> app" where
  \<comment> \<open>\<^verbatim>\<open>except Exception\<close>: the error is shown, the fields keep what the
      \<^verbatim>\<open>try\<close> block had assigned when it raised\<close>
  "load_image dec s path =
     (case load_image_body dec s path of
        Done s' \<Rightarrow> s'
      | Raised err s' \<Rightarrow> s'\<lparr>messages := messages s' @ [Error_failed_to_load err]\<rparr>)"

section \<open>Binary floating point\<close>

text \<open>
  A Python float is an IEEE 754 binary64 number, and every arithmetic operation on floats
  returns the exact result rounded to the nearest such number, a tie going to the one
  with an even significand.  \<open>binary64\<close> is that rounding on the reals: the exponent \<open>e\<close>
  of \<open>x\<close> has \<open>2 ^ e \<le> \<bar>x\<bar> < 2 ^ (e + 1)\<close>, it is not taken below -1022 (the subnormal
  range), and \<open>x\<close> is rounded to a multiple of \<open>2 ^ (e - 52)\<close>.  Results at or beyond
  \<open>2 ^ 1024\<close>, where Python gives an infinity or raises \<^verbatim>\<open>OverflowError\<close>, are not
  modelled: the quantities of the slicer are bounded by the sizes of the raster and of
  the canvas.  An int that meets a float is converted first (\<open>py_float\<close>); the quotient of
  two ints is the exact quotient, rounded once.
\<close>

fun bit_length :: "nat \<Rightarrow> nat" where
  \<comment> \<open>the number of binary digits of \<open>n\<close>\<close>
  "bit_length n = (if n = 0 then 0 else Suc (bit_length (n div 2)))"

declare bit_length.simps [simp del]

definition exponent :: "real \<Rightarrow> int" where
  \<comment> \<open>for \<open>x \<noteq> 0\<close>\<close>
  "exponent x =
     (if 1 \<le> \<bar>x\<bar> then int (bit_length (nat \<lfloor>\<bar>x\<bar>\<rfloor>)) - 1
      else - int (bit_length (nat (\<lceil>1 / \<bar>x\<bar>\<rceil> - 1))))"

definition binary64 :: "real \<Rightarrow> real" where
  "binary64 x =
     (if x = 0 then 0
      else
        (let e = max (exponent x) (- 1022)
         in if 52 \<le> e
            then of_int (py_round (x / 2 ^ nat (e - 52))) * 2 ^ nat (e - 52)
            else of_int (py_round (x * 2 ^ nat (52 - e))) / 2 ^ nat (52 - e)))"

definition py_float :: "int \<Rightarrow> real" where
  "py_float k = binary64 (of_int k)"

section \<open>The callbacks in floating point\<close>

text \<open>
  The definitions of the sections above compute in exact arithmetic.  The ones below are
  the same statements of the source, with every floating-point operation rounded as the
  interpreter rounds it.  They decide the claims whose truth depends on the rounding.
\<close>

definition refresh_view_f64 :: "app \<Rightarrow> outcome" where
  "refresh_view_f64 s =
     (case original_image s of
        None \<Rightarrow> Done s
      | Some im \<Rightarrow>
          if zoom s = 0 then Raised ZeroDivisionError s
          else
            (let view_w = binary64 (py_float (canvas_w s) / zoom s);
                 view_h = binary64 (py_float (canvas_h s) / zoom s);
                 max_pan_x = max 0 (binary64 (py_float (img_width s) - view_w));
                 max_pan_y = max 0 (binary64 (py_float (img_height s) - view_h))
             in Done (s\<lparr>pan_x := max 0 (min (pan_x s) max_pan_x),
                         pan_y := max 0 (min (pan_y s) max_pan_y)\<rparr>)))"

definition fit_to_window_f64 :: "app \<Rightarrow> outcome" where
  "fit_to_window_f64 s =
     (case original_image s of
        None \<Rightarrow> Done s
      | Some im \<Rightarrow>
          (let (cw, ch) = (if canvas_w s < 10 \<or> canvas_h s < 10
                           then (1400, 800) else (canvas_w s, canvas_h s))
           in if img_width s = 0 then Raised ZeroDivisionError s
              else if img_height s = 0 then Raised ZeroDivisionError s
              else
                (let zoom_x = binary64 (of_int cw / of_int (img_width s));
                     zoom_y = binary64 (of_int ch / of_int (img_height s))
                 in refresh_view_f64
                      (s\<lparr>zoom := binary64 (min zoom_x zoom_y * binary64 (95 / 100)),
                         pan_x := 0, pan_y := 0\<rparr>))))"

definition on_scroll_f64 :: "app \<Rightarrow> event \<Rightarrow> outcome" where
  "on_scroll_f64 s e =
     (case original_image s of
        None \<Rightarrow> Done s
      | Some im \<Rightarrow>
          (let factor = (if ev_num e = 4 \<or> (case ev_delta e of None \<Rightarrow> False | Some d \<Rightarrow> 0 < d)
                         then binary64 (12 / 10) else binary64 (1 / binary64 (12 / 10)))
           in if zoom s = 0 then Raised ZeroDivisionError s
              else
                (let mouse_x_img = binary64 (pan_x s + binary64 (py_float (ev_x e) / zoom s));
                     mouse_y_img = binary64 (pan_y s + binary64 (py_float (ev_y e) / zoom s));
                     z = max (binary64 (1 / 100)) (min 5 (binary64 (zoom s * factor)))
                 in refresh_view_f64
                      (s\<lparr>zoom := z,
                         pan_x := binary64 (mouse_x_img - binary64 (py_float (ev_x e) / z)),
                         pan_y := binary64 (mouse_y_img - binary64 (py_float (ev_y e) / z))\<rparr>))))"

definition on_right_click_f64 :: "app \<Rightarrow> event \<Rightarrow> outcome" where
  "on_right_click_f64 s e =
     (case original_image s of
        None \<Rightarrow> Done s
      | Some im \<Rightarrow>
          if zoom s = 0 then Raised ZeroDivisionError s
          else
            (let img_x = binary64 (pan_x s + binary64 (py_float (ev_x e) / zoom s));
                 raw = (if right_to_left s then binary64 (py_float (img_width s) - img_x)
                        else img_x);
                 clamped = max 0 (min raw (of_int (img_width s - page_width_px s)));
                 s1 = s\<lparr>start_offset := clamped\<rparr>;
                 remaining_width = binary64 (py_float (img_width s) - clamped)
             in if page_width_px s = 0 then Raised ZeroDivisionError s1
                else refresh_view_f64
                       (s1\<lparr>pages_x :=
                             math_ceil (binary64 (remaining_width / py_float (page_width_px s)))\<rparr>)))"

definition page_rect_f64 :: "app \<Rightarrow> int \<Rightarrow> real \<times> real" where
  \<comment> \<open>\<open>(left, right)\<close> as \<^verbatim>\<open>export_page\<close> and \<^verbatim>\<open>get_page_image\<close> both compute them\<close>
  "page_rect_f64 s page_num =
     (if right_to_left s then
        (let start_x = binary64 (py_float (img_width s) - start_offset s);
             right = binary64 (start_x - py_float ((page_num - 1) * page_width_px s));
             left = max 0 (binary64 (right - py_float (page_width_px s)))
         in (left, right))
      else
        (let start_x = start_offset s;
             left = binary64 (start_x + py_float ((page_num - 1) * page_width_px s));
             right = min (binary64 (left + py_float (page_width_px s))) (of_int (img_width s))
         in (left, right)))"

definition get_page_image_f64 :: "app \<Rightarrow> int \<Rightarrow> error + image" where
  "get_page_image_f64 s page_num =
     (case page_rect_f64 s page_num of (left, right) \<Rightarrow>
        (case original_image s of
           None \<Rightarrow> Inl AttributeError
         | Some im \<Rightarrow>
             (case crop im (left, 0, right, of_int (img_height s)) of
                Inl err \<Rightarrow> Inl err
              | Inr page_img \<Rightarrow>
                  if im_w page_img \<noteq> page_width_px s then
                    (case image_new (mode im) (page_width_px s, page_height_px s) white of
                       Inl err \<Rightarrow> Inl err
                     | Inr full_page \<Rightarrow>
                         if right_to_left s
                         then Inr (paste full_page page_img (page_width_px s - im_w page_img, 0))
                         else Inr (paste full_page page_img (0, 0)))
                  else Inr page_img)))"

definition load_image_body_f64 :: "decoded \<Rightarrow> app \<Rightarrow> string \<Rightarrow> outcome" where
  "load_image_body_f64 dec s path =
     (case dec of
        Open_raises err \<Rightarrow> Raised err s
      | Load_raises im err \<Rightarrow> Raised err (s\<lparr>original_image := Some im\<rparr>)
      | Loaded im \<Rightarrow>
          (let s1 = s\<lparr>original_image := Some im, image_path := Some path,
                       img_width := im_w im, img_height := im_h im\<rparr>;
               ppi = binary64 (py_float (img_height s1) / PAGE_HEIGHT_INCHES);
               s2 = s1\<lparr>pixels_per_inch := ppi,
                        page_width_px := py_int (binary64 (ppi * PAGE_WIDTH_INCHES)),
                        page_height_px := img_height s1,
                        start_offset := 0\<rparr>
           in if page_width_px s2 = 0 then Raised ZeroDivisionError s2
              else
                (let s3 = s2\<lparr>pages_x :=
                            math_ceil (binary64 (of_int (img_width s2) / of_int (page_width_px s2)))\<rparr>;
                     s4 = (if output_dir s3 = None \<or> output_dir s3 = Some []
                           then s3\<lparr>output_dir := Some (os_path_dirname path)\<rparr> else s3)
                 in fit_to_window_f64 s4)))"

definition load_image_f64 :: "decoded \<Rightarrow> app \<Rightarrow> string \<Rightarrow> app" where
  "load_image_f64 dec s path =
     (case load_image_body_f64 dec s path of
        Done s' \<Rightarrow> s'
      | Raised err s' \<Rightarrow> s'\<lparr>messages := messages s' @ [Error_failed_to_load err]\<rparr>)"

section \<open>A sample panorama\<close>

definition pano :: image where
  "pano = \<lparr>im_w = 2500, im_h = 773, mode = Mode_RGB,
             getpixel = (\<lambda>x y. [nat (x mod 256), nat (y mod 256), 7])\<rparr>"

definition sample :: app where
  \<comment> \<open>the state after loading \<open>pano\<close> into a fresh application\<close>
  "sample =
     \<lparr>original_image = Some pano, image_path = Some ''/scans/pano.png'',
      img_width = 2500, img_height = 773, pixels_per_inch = 1546 / 17,
      page_width_px = 1000, page_height_px = 773, pages_x = 3,
      zoom = 133 / 250, pan_x = 0, pan_y = 0, right_to_left = True, start_offset = 0,
      output_dir = Some ''/scans'', canvas_w = 1400, canvas_h = 800,
      files = [], messages = []\<rparr>"

definition sample_ltr :: app where
  \<comment> \<open>the same panorama, paged from its left edge\<close>
  "sample_ltr = sample\<lparr>right_to_left := False\<rparr>"

definition sample_ltr_750 :: app where
  \<comment> \<open>\<open>sample_ltr\<close> after a right click at canvas x = 399, which is image x = 750\<close>
  "sample_ltr_750 = sample_ltr\<lparr>start_offset := 750, pages_x := 2\<rparr>"

definition sample_750 :: app where
  \<comment> \<open>\<open>sample\<close> after a right click at canvas x = 931, which is image x = 1750\<close>
  "sample_750 = sample\<lparr>start_offset := 750, pages_x := 2\<rparr>"

definition sample_strip :: app where
  \<comment> \<open>\<open>sample_ltr\<close> at 100 percent with the start moved to image x = 1500 and the view
      back at the left edge\<close>
  "sample_strip = sample_ltr\<lparr>zoom := 1, start_offset := 1500, pages_x := 1\<rparr>"

definition strip_image :: image where
  "strip_image = \<lparr>im_w = 200000, im_h = 773, mode = Mode_RGB,
                    getpixel = (\<lambda>x y. [nat (x mod 256), 0, 0])\<rparr>"

definition sample_long :: app where
  \<comment> \<open>the state after loading \<open>strip_image\<close> into a fresh application\<close>
  "sample_long =
     \<lparr>original_image = Some strip_image, image_path = Some ''/scans/strip.png'',
      img_width = 200000, img_height = 773, pixels_per_inch = 1546 / 17,
      page_width_px = 1000, page_height_px = 773, pages_x = 200,
      zoom = 133 / 20000, pan_x = 0, pan_y = 0, right_to_left = True, start_offset = 0,
      output_dir = Some ''/scans'', canvas_w = 1400, canvas_h = 800,
      files = [], messages = []\<rparr>"

definition truncated :: image where
  \<comment> \<open>what \<^verbatim>\<open>Image.open\<close> returns for a file with a sound header and cut-off data:
      the size is known, \<^verbatim>\<open>load()\<close> raises\<close>
  "truncated = \<lparr>im_w = 640, im_h = 480, mode = Mode_RGB, getpixel = (\<lambda>x y. [0, 0, 0])\<rparr>"

definition pano_grey :: image where
  \<comment> \<open>the same panorama scanned in greyscale\<close>
  "pano_grey = \<lparr>im_w = 2500, im_h = 773, mode = Mode_L, getpixel = (\<lambda>x y. [nat (x mod 256)])\<rparr>"

definition sample_grey :: app where
  \<comment> \<open>\<open>sample_ltr\<close> with the greyscale panorama loaded\<close>
  "sample_grey = sample_ltr\<lparr>original_image := Some pano_grey\<rparr>"

definition scan :: image where
  \<comment> \<open>a raster whose page width is odd; a pixel records its column and its row\<close>
  "scan = \<lparr>im_w = 875, im_h = 301, mode = Mode_RGB,
            getpixel = (\<lambda>x y. [nat (x mod 256), nat (x div 256), nat (y mod 256)])\<rparr>"

definition sample_scan :: app where
  \<comment> \<open>the state after loading \<open>scan\<close> into a fresh left-to-right application\<close>
  "sample_scan =
     \<lparr>original_image = Some scan, image_path = Some ''/scans/scan.png'',
      img_width = 875, img_height = 301, pixels_per_inch = 602 / 17,
      page_width_px = 389, page_height_px = 301, pages_x = 3,
      zoom = 38 / 25, pan_x = 0, pan_y = 0, right_to_left = False, start_offset = 0,
      output_dir = Some ''/scans'', canvas_w = 1400, canvas_h = 800,
      files = [], messages = []\<rparr>"

definition sample_scan_half :: app where
  \<comment> \<open>\<open>sample_scan\<close> after a right click at canvas x = 19, which is image x = 12.5\<close>
  "sample_scan_half = sample_scan\<lparr>start_offset := 25 / 2\<rparr>"

definition wide :: app where
  \<comment> \<open>the state after loading \<open>pano\<close> into a fresh left-to-right application on a
      canvas of 1920 by 1000, in floating point\<close>
  "wide =
     \<lparr>original_image = Some pano, image_path = Some ''/scans/pano.png'',
      img_width = 2500, img_height = 773,
      pixels_per_inch = 1599854095568655 / 17592186044416,
      page_width_px = 1000, page_height_px = 773, pages_x = 3,
      zoom = 1642913144064757 / 2251799813685248, pan_x = 0, pan_y = 0,
      right_to_left = False, start_offset = 0,
      output_dir = Some ''/scans'', canvas_w = 1920, canvas_h = 1000,
      files = [], messages = []\<rparr>"

definition wide_out :: app where
  \<comment> \<open>\<open>wide\<close> after one step of the mouse wheel away from the user\<close>
  "wide_out = wide\<lparr>zoom := 1369094286720631 / 2251799813685248\<rparr>"

definition wide_clicked :: app where
  \<comment> \<open>\<open>wide_out\<close> after a right click at canvas x = 912\<close>
  "wide_clicked = wide_out\<lparr>start_offset := 6597069766655999 / 4398046511104, pages_x := 2\<rparr>"

definition narrow :: app where
  \<comment> \<open>the state after loading \<open>pano\<close> into a fresh left-to-right application on a
      canvas of 1400 by 800, in floating point\<close>
  "narrow = wide\<lparr>zoom := 149744687610069 / 281474976710656, canvas_w := 1400, canvas_h := 800\<rparr>"

definition narrow_clicked :: app where
  \<comment> \<open>\<open>narrow\<close> after a right click at canvas x = 2\<close>
  "narrow_clicked = narrow\<lparr>start_offset := 2116353208350797 / 562949953421312\<rparr>"

definition narrow_clicked_11 :: app where
  \<comment> \<open>\<open>narrow\<close> after a right click at canvas x = 11\<close>
  "narrow_clicked_11 = narrow\<lparr>start_offset := 5819971322964691 / 281474976710656\<rparr>"

definition scanned :: app where
  \<comment> \<open>the state after loading \<open>scan\<close> into a fresh left-to-right application, in
      floating point\<close>
  "scanned =
     sample_scan\<lparr>pixels_per_inch := 4983762822935733 / 140737488355328,
                 zoom := 3422735716801577 / 2251799813685248\<rparr>"

definition scanned_clicked :: app where
  \<comment> \<open>\<open>scanned\<close> after a right click at canvas x = 19\<close>
  "scanned_clicked = scanned\<lparr>start_offset := 25 / 2\<rparr>"

definition any_path :: "string \<Rightarrow> bool" where
  \<comment> \<open>an output directory in which every file can be written\<close>
  "any_path p = True"

definition all_but_page_2 :: "string \<Rightarrow> bool" where
  \<comment> \<open>the same directory with an unwritable file in the place of page 2\<close>
  "all_but_page_2 p \<longleftrightarrow> p \<noteq> ''/scans/pano_page002.png''"

section \<open>Page rectangles\<close>

lemma below_page_count:
  fixes d :: real and p n :: int
  assumes "0 < p" and "n \<le> \<lceil>d / of_int p\<rceil>"
  shows "of_int ((n - 1) * p) < d"
proof -
  have "of_int n - 1 < d / of_int p"
    using assms(2) by linarith
  then have "(of_int n - 1) * of_int p < d"
    using assms(1) by (simp add: pos_less_divide_eq)
  then show ?thesis by simp
qed

lemma sample_paginated: "paginated sample"
  by (simp add: paginated_def sample_def)

lemma sample_ltr_paginated: "paginated sample_ltr"
  by (simp add: paginated_def sample_ltr_def sample_def)

section \<open>Page lookup\<close>

lemma py_int_of_int: "py_int (of_int k) = k"
  by (simp add: py_int_def)

lemma floor_within_page:
  fixes p k :: int and e :: real
  assumes "0 < p" and "0 \<le> e" and "e < of_int p"
  shows "\<lfloor>(of_int (k * p) + e) / of_int p\<rfloor> = k"
proof -
  have "(of_int (k * p) + e) / of_int p = of_int k + e / of_int p"
    using assms(1) by (simp add: field_simps)
  moreover have "0 \<le> e / of_int p" and "e / of_int p < 1"
    using assms by simp_all
  ultimately show ?thesis
    by (simp add: floor_unique)
qed

text \<open>
  C3.  For a paginated raster and a page number \<open>n\<close> between 1 and the page count, the
  page lookup of \<^verbatim>\<open>on_mouse_move\<close> and \<^verbatim>\<open>export_clicked_page\<close> (floor
  division of the distance from the anchor by the page width, plus 1), applied to the
  horizontal midpoint of the rectangle of page \<open>n\<close>, returns \<open>n\<close>.
\<close>

theorem page_num_at_midpoint:
  assumes "paginated s" and "1 \<le> n" and "n \<le> pages_x s"
  shows "page_num_at s ((fst (page_rect s n) + snd (page_rect s n)) / 2) = Inr n"
proof -
  let ?p = "page_width_px s" and ?w = "img_width s" and ?so = "start_offset s"
  let ?k = "of_int ((n - 1) * ?p) :: real"
  from assms have p: "0 < ?p" and so: "0 \<le> ?so"
    and n: "n \<le> \<lceil>(of_int ?w - ?so) / of_int ?p\<rceil>"
    by (simp_all add: paginated_def)
  have lt: "?k < of_int ?w - ?so"
    using below_page_count [OF p n] .
  show ?thesis
  proof (cases "right_to_left s")
    case True
    define r where "r = of_int ?w - ?so - ?k"
    define l where "l = max 0 (r - of_int ?p)"
    have rect: "page_rect s n = (l, r)"
      using True by (simp add: page_rect_def Let_def l_def r_def)
    define e where "e = (r - l) / 2"
    have e: "0 \<le> e" "e < of_int ?p"
      using lt p by (auto simp: e_def l_def r_def max_def)
    have "of_int ?w - ?so - (l + r) / 2 = ?k + e"
      by (simp add: e_def r_def field_simps)
    then have "\<lfloor>(of_int ?w - ?so - (l + r) / 2) / of_int ?p\<rfloor> = n - 1"
      using floor_within_page [OF p e, of "n - 1"] by simp
    then show ?thesis
      using True p by (simp add: page_num_at_def rect floordiv_def py_int_of_int)
  next
    case False
    define l where "l = ?so + ?k"
    define r where "r = min (l + of_int ?p) (of_int ?w)"
    have rect: "page_rect s n = (l, r)"
      using False by (simp add: page_rect_def Let_def l_def r_def)
    define e where "e = (r - l) / 2"
    have e: "0 \<le> e" "e < of_int ?p"
      using lt p by (auto simp: e_def l_def r_def min_def)
    have "(l + r) / 2 - ?so = ?k + e"
      by (simp add: e_def l_def field_simps)
    then have "\<lfloor>((l + r) / 2 - ?so) / of_int ?p\<rfloor> = n - 1"
      using floor_within_page [OF p e, of "n - 1"] by simp
    then show ?thesis
      using False p by (simp add: page_num_at_def rect floordiv_def py_int_of_int)
  qed
qed

theorem page_num_at_midpoint_witness:
  "paginated sample \<and> (1::int) \<le> 3 \<and> 3 \<le> pages_x sample \<and>
   page_num_at sample ((fst (page_rect sample 3) + snd (page_rect sample 3)) / 2) = Inr 3 \<and>
   (fst (page_rect sample 3) + snd (page_rect sample 3)) / 2 = 250 \<and>
   paginated sample_ltr \<and> (1::int) \<le> 2 \<and> 2 \<le> pages_x sample_ltr \<and>
   page_num_at sample_ltr ((fst (page_rect sample_ltr 2) + snd (page_rect sample_ltr 2)) / 2) = Inr 2 \<and>
   (fst (page_rect sample_ltr 2) + snd (page_rect sample_ltr 2)) / 2 = 1500"
proof -
  have a: "paginated sample" "(1::int) \<le> 3" "3 \<le> pages_x sample"
    by (simp_all add: sample_paginated) (simp add: sample_def)
  have b: "paginated sample_ltr" "(1::int) \<le> 2" "2 \<le> pages_x sample_ltr"
    by (simp_all add: sample_ltr_paginated) (simp add: sample_ltr_def sample_def)
  have c: "(fst (page_rect sample 3) + snd (page_rect sample 3)) / 2 = 250"
     "(fst (page_rect sample_ltr 2) + snd (page_rect sample_ltr 2)) / 2 = 1500"
    by (simp_all add: page_rect_def sample_ltr_def sample_def)
  show ?thesis
    using a b c page_num_at_midpoint [OF a] page_num_at_midpoint [OF b]
    by simp
qed

section \<open>Exact arithmetic: the pages partition the paged strip\<close>

lemma load_sample: "load_image (Loaded pano) (init 1400 800) ''/scans/pano.png'' = sample"
  by (simp add: load_image_def load_image_body_def fit_to_window_def refresh_view_def init_def
      pano_def sample_def PAGE_HEIGHT_INCHES_def PAGE_WIDTH_INCHES_def py_int_def math_ceil_def
      os_path_dirname_def Let_def)

lemma of_int_pages_mono:
  fixes p i j :: int
  assumes "0 < p" and "i \<le> j"
  shows "(of_int (i * p) :: real) \<le> of_int (j * p)"
  using assms by (simp add: mult_right_mono)

lemma in_page_ltr:
  assumes "\<not> right_to_left s"
  shows "x \<in> {fst (page_rect s n) ..< snd (page_rect s n)} \<longleftrightarrow>
         start_offset s + of_int ((n - 1) * page_width_px s) \<le> x \<and>
         x < start_offset s + of_int (n * page_width_px s) \<and> x < of_int (img_width s)"
  using assms by (auto simp: page_rect_def Let_def left_diff_distrib)

lemma in_page_rtl:
  assumes "right_to_left s"
  shows "x \<in> {fst (page_rect s n) ..< snd (page_rect s n)} \<longleftrightarrow>
         of_int (img_width s) - start_offset s - of_int (n * page_width_px s) \<le> x \<and> 0 \<le> x \<and>
         x < of_int (img_width s) - start_offset s - of_int ((n - 1) * page_width_px s)"
  using assms by (auto simp: page_rect_def Let_def left_diff_distrib)

lemma pages_disjoint_aux:
  assumes p: "0 < page_width_px s" and ij: "i < j"
  shows "{fst (page_rect s i) ..< snd (page_rect s i)} \<inter>
         {fst (page_rect s j) ..< snd (page_rect s j)} = {}"
proof -
  have le: "(of_int (i * page_width_px s) :: real) \<le> of_int ((j - 1) * page_width_px s)"
    using of_int_pages_mono [OF p, of i "j - 1"] ij by simp
  show ?thesis
  proof (cases "right_to_left s")
    case True
    show ?thesis
      using le unfolding disjoint_iff in_page_rtl [OF True] by linarith
  next
    case False
    show ?thesis
      using le unfolding disjoint_iff in_page_ltr [OF False] by linarith
  qed
qed

lemma pages_disjoint:
  assumes p: "0 < page_width_px s" and ij: "i \<noteq> j"
  shows "{fst (page_rect s i) ..< snd (page_rect s i)} \<inter>
         {fst (page_rect s j) ..< snd (page_rect s j)} = {}"
proof (cases "i < j")
  case True
  then show ?thesis by (rule pages_disjoint_aux [OF p])
next
  case False
  with ij have "j < i" by simp
  from pages_disjoint_aux [OF p this] show ?thesis by (simp add: Int_commute)
qed


lemma pages_cover_ltr:
  assumes pg: "paginated s" and dir: "\<not> right_to_left s"
  shows "(\<Union>n\<in>{1..pages_x s}. {fst (page_rect s n) ..< snd (page_rect s n)}) =
         {start_offset s ..< of_int (img_width s)}"
proof (intro equalityI subsetI)
  fix x
  assume "x \<in> (\<Union>n\<in>{1..pages_x s}. {fst (page_rect s n) ..< snd (page_rect s n)})"
  then obtain n where n: "1 \<le> n" and x: "x \<in> {fst (page_rect s n) ..< snd (page_rect s n)}"
    by auto
  from pg have p: "0 < page_width_px s"
    by (simp add: paginated_def)
  have "(0::real) \<le> of_int ((n - 1) * page_width_px s)"
    using p n by simp
  with x show "x \<in> {start_offset s ..< of_int (img_width s)}"
    unfolding in_page_ltr [OF dir] by simp
next
  fix x
  assume x: "x \<in> {start_offset s ..< of_int (img_width s)}"
  let ?p = "page_width_px s" and ?d = "x - start_offset s"
  from pg have p: "0 < ?p"
    and N: "pages_x s = \<lceil>(of_int (img_width s) - start_offset s) / of_int ?p\<rceil>"
    by (simp_all add: paginated_def)
  define n where "n = \<lfloor>?d / of_int ?p\<rfloor> + 1"
  have lo: "of_int (n - 1) \<le> ?d / of_int ?p" and hi: "?d / of_int ?p < of_int n"
    by (simp_all add: n_def)
  have 1: "1 \<le> n"
    using x p by (simp add: n_def)
  have "?d / of_int ?p < (of_int (img_width s) - start_offset s) / of_int ?p"
    using x p by (simp add: divide_strict_right_mono)
  also have "\<dots> \<le> of_int (pages_x s)"
    by (simp add: N)
  finally have 2: "n \<le> pages_x s"
    unfolding n_def by linarith
  have "of_int (n - 1) * of_int ?p \<le> ?d" and "?d < of_int n * of_int ?p"
    using lo hi p by (simp_all add: pos_le_divide_eq pos_divide_less_eq)
  then have "x \<in> {fst (page_rect s n) ..< snd (page_rect s n)}"
    using x unfolding in_page_ltr [OF dir] by simp
  with 1 2 show "x \<in> (\<Union>n\<in>{1..pages_x s}. {fst (page_rect s n) ..< snd (page_rect s n)})"
    by auto
qed

lemma pages_cover_rtl:
  assumes pg: "paginated s" and dir: "right_to_left s"
  shows "(\<Union>n\<in>{1..pages_x s}. {fst (page_rect s n) ..< snd (page_rect s n)}) =
         {0 ..< of_int (img_width s) - start_offset s}"
proof (intro equalityI subsetI)
  fix x
  assume "x \<in> (\<Union>n\<in>{1..pages_x s}. {fst (page_rect s n) ..< snd (page_rect s n)})"
  then obtain n where n: "1 \<le> n" and x: "x \<in> {fst (page_rect s n) ..< snd (page_rect s n)}"
    by auto
  from pg have p: "0 < page_width_px s"
    by (simp add: paginated_def)
  have "(0::real) \<le> of_int ((n - 1) * page_width_px s)"
    using p n by simp
  with x show "x \<in> {0 ..< of_int (img_width s) - start_offset s}"
    unfolding in_page_rtl [OF dir] by simp
next
  fix x
  assume x: "x \<in> {0 ..< of_int (img_width s) - start_offset s}"
  let ?p = "page_width_px s" and ?a = "of_int (img_width s) - start_offset s"
  let ?d = "?a - x"
  from pg have p: "0 < ?p" and N: "pages_x s = \<lceil>?a / of_int ?p\<rceil>"
    by (simp_all add: paginated_def)
  define n where "n = \<lceil>?d / of_int ?p\<rceil>"
  have lo: "of_int (n - 1) < ?d / of_int ?p" and hi: "?d / of_int ?p \<le> of_int n"
    unfolding n_def by linarith+
  have "0 < ?d / of_int ?p"
    using x p by simp
  then have 1: "1 \<le> n"
    unfolding n_def by linarith
  have "?d / of_int ?p \<le> ?a / of_int ?p"
    using x p by (simp add: divide_right_mono)
  then have 2: "n \<le> pages_x s"
    unfolding n_def N by (rule ceiling_mono)
  have "of_int (n - 1) * of_int ?p < ?d" and "?d \<le> of_int n * of_int ?p"
    using lo hi p by (simp_all add: pos_less_divide_eq pos_divide_le_eq)
  then have "x \<in> {fst (page_rect s n) ..< snd (page_rect s n)}"
    using x unfolding in_page_rtl [OF dir] by simp
  with 1 2 show "x \<in> (\<Union>n\<in>{1..pages_x s}. {fst (page_rect s n) ..< snd (page_rect s n)})"
    by auto
qed

lemma consecutive_pages_ltr:
  assumes pg: "paginated s" and dir: "\<not> right_to_left s" and n: "1 \<le> n" "n < pages_x s"
  shows "snd (page_rect s n) = fst (page_rect s (n + 1)) \<and>
         {fst (page_rect s n) .. snd (page_rect s n)} \<inter>
         {fst (page_rect s (n + 1)) .. snd (page_rect s (n + 1))} = {snd (page_rect s n)}"
proof -
  let ?p = "page_width_px s"
  from pg have p: "0 < ?p"
    and N: "n + 1 \<le> \<lceil>(of_int (img_width s) - start_offset s) / of_int ?p\<rceil>"
    using n by (simp_all add: paginated_def)
  have lt: "of_int (n * ?p) < of_int (img_width s) - start_offset s"
    using below_page_count [OF p N] by simp
  have P: "(0::real) < of_int ?p"
    using p by simp
  show ?thesis
    using lt P dir by (auto simp: page_rect_def Let_def left_diff_distrib distrib_right)
qed

lemma consecutive_pages_rtl:
  assumes pg: "paginated s" and dir: "right_to_left s" and n: "1 \<le> n" "n < pages_x s"
  shows "fst (page_rect s n) = snd (page_rect s (n + 1)) \<and>
         {fst (page_rect s n) .. snd (page_rect s n)} \<inter>
         {fst (page_rect s (n + 1)) .. snd (page_rect s (n + 1))} = {fst (page_rect s n)}"
proof -
  let ?p = "page_width_px s"
  from pg have p: "0 < ?p"
    and N: "n + 1 \<le> \<lceil>(of_int (img_width s) - start_offset s) / of_int ?p\<rceil>"
    using n by (simp_all add: paginated_def)
  have lt: "of_int (n * ?p) < of_int (img_width s) - start_offset s"
    using below_page_count [OF p N] by simp
  have P: "(0::real) < of_int ?p"
    using p by simp
  show ?thesis
    using lt P dir by (auto simp: page_rect_def Let_def left_diff_distrib distrib_right)
qed


lemma right_click_sample_ltr:
  "on_right_click sample_ltr \<lparr>ev_x = 399, ev_y = 10, ev_num = 3, ev_delta = None\<rparr> = Done sample_ltr_750"
  by (simp add: on_right_click_def refresh_view_def sample_ltr_750_def sample_ltr_def sample_def math_ceil_def Let_def)

lemma right_click_sample:
  "on_right_click sample \<lparr>ev_x = 931, ev_y = 10, ev_num = 3, ev_delta = None\<rparr> = Done sample_750"
  by (simp add: on_right_click_def refresh_view_def sample_750_def sample_def math_ceil_def Let_def)

lemma sample_ltr_750_paginated: "paginated sample_ltr_750"
  by (simp add: paginated_def sample_ltr_750_def sample_ltr_def sample_def)

lemma sample_750_paginated: "paginated sample_750"
  by (simp add: paginated_def sample_750_def sample_def)

text \<open>
  In exact arithmetic the rectangles of pages 1 to the page count, read as half-open
  intervals, are pairwise disjoint; two consecutive pages meet in exactly one boundary
  coordinate; and their union is \<open>[startOffset, rasterWidth)\<close> for left-to-right and
  \<open>[0, rasterWidth - startOffset)\<close> for right-to-left, so that no page covers a coordinate
  of the strip between the natural edge and the start anchor.
\<close>

lemma pages_partition_exact:
  assumes "paginated s"
  shows "(\<forall>i\<in>{1..pages_x s}. \<forall>j\<in>{1..pages_x s}. i \<noteq> j \<longrightarrow>
            {fst (page_rect s i) ..< snd (page_rect s i)} \<inter>
            {fst (page_rect s j) ..< snd (page_rect s j)} = {}) \<and>
         (\<forall>n\<in>{1..<pages_x s}.
            (if right_to_left s
             then fst (page_rect s n) = snd (page_rect s (n + 1)) \<and>
                  {fst (page_rect s n) .. snd (page_rect s n)} \<inter>
                  {fst (page_rect s (n + 1)) .. snd (page_rect s (n + 1))} = {fst (page_rect s n)}
             else snd (page_rect s n) = fst (page_rect s (n + 1)) \<and>
                  {fst (page_rect s n) .. snd (page_rect s n)} \<inter>
                  {fst (page_rect s (n + 1)) .. snd (page_rect s (n + 1))} = {snd (page_rect s n)})) \<and>
         (\<Union>n\<in>{1..pages_x s}. {fst (page_rect s n) ..< snd (page_rect s n)}) =
           (if right_to_left s
            then {0 ..< of_int (img_width s) - start_offset s}
            else {start_offset s ..< of_int (img_width s)}) \<and>
         (\<forall>x. (if right_to_left s
               then of_int (img_width s) - start_offset s \<le> x \<and> x < of_int (img_width s)
               else 0 \<le> x \<and> x < start_offset s) \<longrightarrow>
              (\<forall>n\<in>{1..pages_x s}. x \<notin> {fst (page_rect s n) ..< snd (page_rect s n)}))"
proof -
  from assms have p: "0 < page_width_px s"
    by (simp add: paginated_def)
  have disjoint: "\<forall>i\<in>{1..pages_x s}. \<forall>j\<in>{1..pages_x s}. i \<noteq> j \<longrightarrow>
            {fst (page_rect s i) ..< snd (page_rect s i)} \<inter>
            {fst (page_rect s j) ..< snd (page_rect s j)} = {}"
    using pages_disjoint [OF p] by blast
  have consecutive: "\<forall>n\<in>{1..<pages_x s}.
            (if right_to_left s
             then fst (page_rect s n) = snd (page_rect s (n + 1)) \<and>
                  {fst (page_rect s n) .. snd (page_rect s n)} \<inter>
                  {fst (page_rect s (n + 1)) .. snd (page_rect s (n + 1))} = {fst (page_rect s n)}
             else snd (page_rect s n) = fst (page_rect s (n + 1)) \<and>
                  {fst (page_rect s n) .. snd (page_rect s n)} \<inter>
                  {fst (page_rect s (n + 1)) .. snd (page_rect s (n + 1))} = {snd (page_rect s n)})"
  proof (intro ballI)
    fix n
    assume "n \<in> {1..<pages_x s}"
    then have n: "1 \<le> n" "n < pages_x s"
      by simp_all
    show "if right_to_left s
             then fst (page_rect s n) = snd (page_rect s (n + 1)) \<and>
                  {fst (page_rect s n) .. snd (page_rect s n)} \<inter>
                  {fst (page_rect s (n + 1)) .. snd (page_rect s (n + 1))} = {fst (page_rect s n)}
             else snd (page_rect s n) = fst (page_rect s (n + 1)) \<and>
                  {fst (page_rect s n) .. snd (page_rect s n)} \<inter>
                  {fst (page_rect s (n + 1)) .. snd (page_rect s (n + 1))} = {snd (page_rect s n)}"
    proof (cases "right_to_left s")
      case True
      show ?thesis
        unfolding if_P [OF True] by (rule consecutive_pages_rtl [OF assms True n])
    next
      case False
      show ?thesis
        unfolding if_not_P [OF False] by (rule consecutive_pages_ltr [OF assms False n])
    qed
  qed
  have cover: "(\<Union>n\<in>{1..pages_x s}. {fst (page_rect s n) ..< snd (page_rect s n)}) =
           (if right_to_left s
            then {0 ..< of_int (img_width s) - start_offset s}
            else {start_offset s ..< of_int (img_width s)})"
    using pages_cover_rtl [OF assms] pages_cover_ltr [OF assms] by simp
  have strip: "\<forall>x. (if right_to_left s
               then of_int (img_width s) - start_offset s \<le> x \<and> x < of_int (img_width s)
               else 0 \<le> x \<and> x < start_offset s) \<longrightarrow>
              (\<forall>n\<in>{1..pages_x s}. x \<notin> {fst (page_rect s n) ..< snd (page_rect s n)})"
  proof (intro allI impI ballI)
    fix x n
    assume x: "if right_to_left s
               then of_int (img_width s) - start_offset s \<le> x \<and> x < of_int (img_width s)
               else 0 \<le> x \<and> x < start_offset s"
      and n: "n \<in> {1..pages_x s}"
    have "x \<notin> (\<Union>n\<in>{1..pages_x s}. {fst (page_rect s n) ..< snd (page_rect s n)})"
      unfolding cover using x by (simp split: if_splits)
    with n show "x \<notin> {fst (page_rect s n) ..< snd (page_rect s n)}"
      by blast
  qed
  from disjoint consecutive cover strip show ?thesis
    by blast
qed

section \<open>Resetting and setting the start\<close>

lemma reset_start_loaded:
  assumes "original_image s = Some im" and "page_width_px s \<noteq> 0" and "zoom s \<noteq> 0"
  shows "\<exists>t. reset_start s = Done t \<and> start_offset t = 0 \<and>
           pages_x t = \<lceil>real_of_int (img_width s) / real_of_int (page_width_px s)\<rceil> \<and>
           original_image t = original_image s \<and> img_width t = img_width s \<and>
           page_width_px t = page_width_px s \<and> zoom t = zoom s \<and>
           right_to_left t = right_to_left s"
  using assms by (simp add: reset_start_def refresh_view_def math_ceil_def Let_def)

lemma on_right_click_loaded:
  assumes "original_image s = Some im" and "page_width_px s \<noteq> 0" and "zoom s \<noteq> 0"
    and "c = max 0 (min (if right_to_left s
                          then real_of_int (img_width s) - (pan_x s + real_of_int (ev_x e) / zoom s)
                          else pan_x s + real_of_int (ev_x e) / zoom s)
                        (real_of_int (img_width s - page_width_px s)))"
  shows "\<exists>t. on_right_click s e = Done t \<and> start_offset t = c \<and>
           pages_x t = \<lceil>(real_of_int (img_width s) - c) / real_of_int (page_width_px s)\<rceil>"
  using assms by (simp add: on_right_click_def refresh_view_def math_ceil_def Let_def)

text \<open>
  C4.  As stated (reset, then set the start at raw image coordinate 0, in either
  direction) the claim fails for right-to-left: the raw coordinate is measured from the
  left edge and the offset from the right edge, so coordinate 0 is the far end and clamps
  to \<open>rasterWidth - pageWidthPx\<close>.
  What holds: on a loaded raster, \<^verbatim>\<open>reset_start\<close> followed by a right click at the
  raw image coordinate of the natural edge (0 for left-to-right, \<open>rasterWidth\<close> for
  right-to-left) gives the pagination of the freshly loaded state, start offset 0 and
  \<open>ceil(rasterWidth / pageWidthPx)\<close> pages; for right-to-left a click at raw coordinate 0
  gives the start offset \<open>max(0, rasterWidth - pageWidthPx)\<close>.
\<close>

theorem reset_then_set_start:
  assumes loaded: "original_image s \<noteq> None" and p: "0 < page_width_px s" and z: "0 < zoom s"
    and s': "s' = state_of (reset_start s)"
    and s'': "s'' = state_of (on_right_click s' e)"
  shows "(pan_x s' + real_of_int (ev_x e) / zoom s' =
            (if right_to_left s then real_of_int (img_width s) else 0)
          \<longrightarrow> start_offset s'' = 0 \<and>
              pages_x s'' = \<lceil>real_of_int (img_width s) / real_of_int (page_width_px s)\<rceil>) \<and>
         (right_to_left s \<and> pan_x s' + real_of_int (ev_x e) / zoom s' = 0
          \<longrightarrow> start_offset s'' = max 0 (real_of_int (img_width s - page_width_px s)) \<and>
              pages_x s'' = \<lceil>(real_of_int (img_width s) - start_offset s'')
                               / real_of_int (page_width_px s)\<rceil>)"
proof -
  from loaded obtain im where im: "original_image s = Some im"
    by auto
  from p z have nz: "page_width_px s \<noteq> 0" "zoom s \<noteq> 0"
    by simp_all
  from reset_start_loaded [OF im nz] s'
  have f: "original_image s' = Some im" "page_width_px s' \<noteq> 0" "zoom s' \<noteq> 0"
    "img_width s' = img_width s" "page_width_px s' = page_width_px s"
    "right_to_left s' = right_to_left s"
    using im nz by auto
  define c where "c = max 0 (min (if right_to_left s'
                          then real_of_int (img_width s') - (pan_x s' + real_of_int (ev_x e) / zoom s')
                          else pan_x s' + real_of_int (ev_x e) / zoom s')
                        (real_of_int (img_width s' - page_width_px s')))"
  from on_right_click_loaded [OF f(1-3) c_def] s''
  have r: "start_offset s'' = c"
    "pages_x s'' = \<lceil>(real_of_int (img_width s) - c) / real_of_int (page_width_px s)\<rceil>"
    by (auto simp: f)
  show ?thesis
    unfolding r using p by (auto simp: c_def f)
qed

lemma reset_sample: "reset_start sample = Done sample"
  by (simp add: reset_start_def refresh_view_def sample_def math_ceil_def Let_def)

lemma reset_sample_ltr: "reset_start sample_ltr = Done sample_ltr"
  by (simp add: reset_start_def refresh_view_def sample_ltr_def sample_def math_ceil_def Let_def)

theorem reset_then_set_start_at_0_counterexample:
  "load_image (Loaded pano) (init 1400 800) ''/scans/pano.png'' = sample \<and>
   right_to_left sample \<and> start_offset sample = 0 \<and> pages_x sample = 3 \<and>
   reset_start sample = Done sample \<and>
   pan_x sample + real_of_int 0 / zoom sample = 0 \<and>
   on_right_click sample \<lparr>ev_x = 0, ev_y = 10, ev_num = 3, ev_delta = None\<rparr>
     = Done (sample\<lparr>start_offset := 1500, pages_x := 1\<rparr>)"
proof -
  have "on_right_click sample \<lparr>ev_x = 0, ev_y = 10, ev_num = 3, ev_delta = None\<rparr>
     = Done (sample\<lparr>start_offset := 1500, pages_x := 1\<rparr>)"
    by (simp add: on_right_click_def refresh_view_def sample_def math_ceil_def Let_def)
  moreover have "right_to_left sample \<and> start_offset sample = 0 \<and> pages_x sample = 3 \<and>
    pan_x sample + real_of_int 0 / zoom sample = 0"
    by (simp add: sample_def)
  ultimately show ?thesis
    using load_sample reset_sample by blast
qed

theorem reset_then_set_start_witness:
  "original_image sample \<noteq> None \<and> 0 < page_width_px sample \<and> 0 < zoom sample \<and>
   state_of (reset_start sample) = sample \<and>
   pan_x sample + real_of_int (ev_x \<lparr>ev_x = 1330, ev_y = 10, ev_num = 3, ev_delta = None\<rparr>)
      / zoom sample = real_of_int (img_width sample) \<and>
   start_offset (state_of (on_right_click sample
      \<lparr>ev_x = 1330, ev_y = 10, ev_num = 3, ev_delta = None\<rparr>)) = 0 \<and>
   pages_x (state_of (on_right_click sample
      \<lparr>ev_x = 1330, ev_y = 10, ev_num = 3, ev_delta = None\<rparr>)) = 3 \<and>
   start_offset (state_of (on_right_click sample
      \<lparr>ev_x = 0, ev_y = 10, ev_num = 3, ev_delta = None\<rparr>)) = 1500 \<and>
   original_image sample_ltr \<noteq> None \<and> 0 < page_width_px sample_ltr \<and> 0 < zoom sample_ltr \<and>
   state_of (reset_start sample_ltr) = sample_ltr \<and>
   start_offset (state_of (on_right_click sample_ltr
      \<lparr>ev_x = 0, ev_y = 10, ev_num = 3, ev_delta = None\<rparr>)) = 0 \<and>
   pages_x (state_of (on_right_click sample_ltr
      \<lparr>ev_x = 0, ev_y = 10, ev_num = 3, ev_delta = None\<rparr>)) = 3"
proof -
  let ?e = "\<lparr>ev_x = 1330, ev_y = 10, ev_num = 3, ev_delta = None\<rparr>"
  let ?z = "\<lparr>ev_x = 0, ev_y = 10, ev_num = 3, ev_delta = None\<rparr>"
  have a: "original_image sample \<noteq> None" "0 < page_width_px sample" "0 < zoom sample"
    by (simp_all add: sample_def)
  have b: "original_image sample_ltr \<noteq> None" "0 < page_width_px sample_ltr"
    "0 < zoom sample_ltr"
    by (simp_all add: sample_ltr_def sample_def)
  have rs: "sample = state_of (reset_start sample)" "sample_ltr = state_of (reset_start sample_ltr)"
    by (simp_all add: reset_sample reset_sample_ltr)
  have x1: "pan_x sample + real_of_int (ev_x ?e) / zoom sample = real_of_int (img_width sample)"
    by (simp add: sample_def)
  have x2: "pan_x sample + real_of_int (ev_x ?z) / zoom sample = 0"
    by (simp add: sample_def)
  have x3: "pan_x sample_ltr + real_of_int (ev_x ?z) / zoom sample_ltr = 0"
    by (simp add: sample_ltr_def sample_def)
  note x = x1 x2 x3
  have y: "right_to_left sample" "\<not> right_to_left sample_ltr"
    "img_width sample = 2500" "page_width_px sample = 1000"
    "img_width sample_ltr = 2500" "page_width_px sample_ltr = 1000"
    by (simp_all add: sample_ltr_def sample_def)
  note t1 = reset_then_set_start [OF a rs(1) refl, of ?e]
  note t2 = reset_then_set_start [OF a rs(1) refl, of ?z]
  note t3 = reset_then_set_start [OF b rs(2) refl, of ?z]
  have c1: "start_offset (state_of (on_right_click sample ?e)) = 0 \<and>
            pages_x (state_of (on_right_click sample ?e)) = 3"
    using t1 [THEN conjunct1] x y by simp
  have c2: "start_offset (state_of (on_right_click sample ?z)) = 1500"
    using t2 [THEN conjunct2] x y by simp
  have c3: "start_offset (state_of (on_right_click sample_ltr ?z)) = 0 \<and>
            pages_x (state_of (on_right_click sample_ltr ?z)) = 3"
    using t3 [THEN conjunct1] x y by simp
  show ?thesis
    using a b rs [symmetric] x(1) c1 c2 c3 by blast
qed

section \<open>Visible pages\<close>

lemma sample_strip_reachable:
  "state_of (zoom_100 sample_ltr) = sample_ltr\<lparr>zoom := 1\<rparr> \<and>
   state_of (pan_by (sample_ltr\<lparr>zoom := 1\<rparr>) 500 0) = sample_ltr\<lparr>zoom := 1, pan_x := 500\<rparr> \<and>
   state_of (pan_by (sample_ltr\<lparr>zoom := 1, pan_x := 500\<rparr>) 500 0)
     = sample_ltr\<lparr>zoom := 1, pan_x := 1000\<rparr> \<and>
   state_of (pan_by (sample_ltr\<lparr>zoom := 1, pan_x := 1000\<rparr>) 500 0)
     = sample_ltr\<lparr>zoom := 1, pan_x := 1100\<rparr> \<and>
   state_of (on_right_click (sample_ltr\<lparr>zoom := 1, pan_x := 1100\<rparr>)
               \<lparr>ev_x = 400, ev_y = 10, ev_num = 3, ev_delta = None\<rparr>)
     = sample_strip\<lparr>pan_x := 1100\<rparr> \<and>
   state_of (pan_by (sample_strip\<lparr>pan_x := 1100\<rparr>) (- 500) 0) = sample_strip\<lparr>pan_x := 600\<rparr> \<and>
   state_of (pan_by (sample_strip\<lparr>pan_x := 600\<rparr>) (- 500) 0) = sample_strip\<lparr>pan_x := 100\<rparr> \<and>
   state_of (pan_by (sample_strip\<lparr>pan_x := 100\<rparr>) (- 500) 0) = sample_strip"
  by (simp add: zoom_100_def pan_by_def on_right_click_def refresh_view_def sample_strip_def
      sample_ltr_def sample_def math_ceil_def Let_def)

lemma sample_strip_paginated: "paginated sample_strip"
  by (simp add: paginated_def sample_strip_def sample_ltr_def sample_def)

lemma page_floor_ge_1:
  fixes p :: int and x :: real
  assumes "0 < p"
  shows "1 \<le> \<lfloor>x / of_int p\<rfloor> + 1 \<longleftrightarrow> 0 \<le> x"
  using assms by (simp add: zero_le_divide_iff)

lemma page_floor_le:
  fixes p N :: int and x :: real
  assumes "0 < p"
  shows "\<lfloor>x / of_int p\<rfloor> + 1 \<le> N \<longleftrightarrow> x < of_int (N * p)"
proof -
  have "\<lfloor>x / of_int p\<rfloor> + 1 \<le> N \<longleftrightarrow> \<lfloor>x / of_int p\<rfloor> < N"
    by linarith
  also have "\<dots> \<longleftrightarrow> x / of_int p < of_int N"
    by (rule floor_less_iff)
  also have "\<dots> \<longleftrightarrow> x < of_int (N * p)"
    using assms by (simp add: pos_divide_less_eq)
  finally show ?thesis .
qed

lemma page_count_covers:
  fixes p :: int and d :: real
  assumes "0 < p"
  shows "d \<le> of_int (\<lceil>d / of_int p\<rceil> * p)"
proof -
  have "d / of_int p * of_int p \<le> of_int \<lceil>d / of_int p\<rceil> * of_int p"
    using assms by (intro mult_right_mono le_of_int_ceiling) simp
  then show ?thesis
    using assms by simp
qed

lemma paginated_count_ge_1:
  assumes "paginated s"
  shows "1 \<le> pages_x s"
proof -
  from assms have "0 < (of_int (img_width s) - start_offset s) / of_int (page_width_px s)"
    by (auto simp: paginated_def max_def split: if_splits)
  then show ?thesis
    using assms by (simp add: paginated_def)
qed

text \<open>
  C7.  As stated (\<open>1 \<le> startPage \<le> endPage \<le> pageCount\<close> for every clamped view) the
  claim fails when the start offset is positive and the view lies wholly in the strip
  before the start anchor: the range is then empty.  What holds: for a paginated raster and a clamped
  view on a canvas of positive width, \<^verbatim>\<open>get_visible_page_numbers\<close> and
  \<^verbatim>\<open>export_visible_pages\<close> compute \<open>(startPage, endPage)\<close> with
  \<open>1 \<le> startPage\<close> and \<open>endPage \<le> pageCount\<close>; \<open>startPage \<le> endPage\<close> holds exactly
  when the view reaches the paged strip (its right edge is at or beyond the start offset
  for left-to-right, its left edge at or before \<open>rasterWidth - startOffset\<close> for
  right-to-left), in particular whenever the start offset is 0.
\<close>

theorem visible_page_range_bounds:
  assumes pg: "paginated s" and z: "0 < zoom s" and cw: "0 < canvas_w s"
    and pan: "0 \<le> pan_x s"
      "pan_x s \<le> max 0 (of_int (img_width s) - of_int (canvas_w s) / zoom s)"
  shows "\<exists>start_page end_page.
           visible_page_range s = Inr (start_page, end_page) \<and>
           1 \<le> start_page \<and> end_page \<le> pages_x s \<and>
           (start_page \<le> end_page \<longleftrightarrow>
              (if right_to_left s
               then pan_x s \<le> of_int (img_width s) - start_offset s
               else start_offset s \<le> pan_x s + of_int (canvas_w s) / zoom s)) \<and>
           (start_offset s = 0 \<longrightarrow> start_page \<le> end_page)"
proof -
  let ?p = "page_width_px s" and ?N = "pages_x s"
  let ?vl = "pan_x s" and ?vr = "pan_x s + of_int (canvas_w s) / zoom s"
  let ?a = "of_int (img_width s) - start_offset s"
  from pg have p: "0 < ?p" and so: "0 \<le> start_offset s"
    and N: "?N = \<lceil>?a / of_int ?p\<rceil>" and w: "0 < img_width s"
    by (simp_all add: paginated_def)
  have N1: "1 \<le> ?N"
    using pg by (rule paginated_count_ge_1)
  have cover: "?a \<le> of_int (?N * ?p)"
    unfolding N using p by (rule page_count_covers)
  have vw: "0 < of_int (canvas_w s) / zoom s"
    using z cw by simp
  have vlw: "?vl < of_int (img_width s)"
    using pan vw w by (auto simp: max_def split: if_splits)
  show ?thesis
  proof (cases "right_to_left s")
    case True
    define A where "A = \<lfloor>(?a - ?vr) / of_int ?p\<rfloor> + 1"
    define B where "B = \<lfloor>(?a - ?vl) / of_int ?p\<rfloor> + 1"
    have eq: "visible_page_range s = Inr (max 1 A, min ?N B)"
      using True p z
      by (simp add: visible_page_range_def Let_def floordiv_def py_int_of_int A_def B_def)
    have AB: "A \<le> B"
      unfolding A_def B_def using vw p
      by (intro add_right_mono floor_mono divide_right_mono) simp_all
    have AN: "A \<le> ?N"
      unfolding A_def page_floor_le [OF p] using cover vw pan(1) by linarith
    have B1: "1 \<le> B \<longleftrightarrow> ?vl \<le> ?a"
      unfolding B_def page_floor_ge_1 [OF p] by linarith
    have "max 1 A \<le> min ?N B \<longleftrightarrow> ?vl \<le> ?a"
      using AB AN N1 B1 by auto
    moreover have "start_offset s = 0 \<longrightarrow> ?vl \<le> ?a"
      using vlw by simp
    ultimately show ?thesis
      using True eq by auto
  next
    case False
    define A where "A = \<lfloor>(?vl - start_offset s) / of_int ?p\<rfloor> + 1"
    define B where "B = \<lfloor>(?vr - start_offset s) / of_int ?p\<rfloor> + 1"
    have eq: "visible_page_range s = Inr (max 1 A, min ?N B)"
      using False p z
      by (simp add: visible_page_range_def Let_def floordiv_def py_int_of_int A_def B_def)
    have AB: "A \<le> B"
      unfolding A_def B_def using vw p
      by (intro add_right_mono floor_mono divide_right_mono) simp_all
    have AN: "A \<le> ?N"
      unfolding A_def page_floor_le [OF p] using cover vlw by linarith
    have B1: "1 \<le> B \<longleftrightarrow> start_offset s \<le> ?vr"
      unfolding B_def page_floor_ge_1 [OF p] by linarith
    have "max 1 A \<le> min ?N B \<longleftrightarrow> start_offset s \<le> ?vr"
      using AB AN N1 B1 by auto
    moreover have "start_offset s = 0 \<longrightarrow> start_offset s \<le> ?vr"
      using vw pan(1) by simp
    ultimately show ?thesis
      using False eq by auto
  qed
qed

theorem visible_page_range_counterexample:
  "paginated sample_strip \<and> zoom sample_strip = 1 \<and> canvas_w sample_strip = 1400 \<and>
   pan_x sample_strip = 0 \<and>
   max 0 (of_int (img_width sample_strip) - of_int (canvas_w sample_strip) / zoom sample_strip)
     = (1100::real) \<and>
   pages_x sample_strip = 1 \<and>
   visible_page_range sample_strip = Inr (1, 0) \<and>
   get_visible_page_numbers sample_strip = Inr []"
  using sample_strip_paginated
  by (simp add: visible_page_range_def get_visible_page_numbers_def floordiv_def py_int_of_int
      sample_strip_def sample_ltr_def sample_def Let_def)


theorem visible_page_range_bounds_witness:
  "paginated sample_ltr_750 \<and> 0 < zoom sample_ltr_750 \<and> 0 < canvas_w sample_ltr_750 \<and>
   0 \<le> pan_x sample_ltr_750 \<and>
   pan_x sample_ltr_750 \<le> max 0 (of_int (img_width sample_ltr_750)
                                    - of_int (canvas_w sample_ltr_750) / zoom sample_ltr_750) \<and>
   visible_page_range sample_ltr_750 = Inr (1, 2) \<and> pages_x sample_ltr_750 = 2 \<and>
   start_offset sample_ltr_750
     \<le> pan_x sample_ltr_750 + of_int (canvas_w sample_ltr_750) / zoom sample_ltr_750 \<and>
   paginated sample_strip \<and> 0 < zoom sample_strip \<and> 0 < canvas_w sample_strip \<and>
   0 \<le> pan_x sample_strip \<and>
   pan_x sample_strip \<le> max 0 (of_int (img_width sample_strip)
                                 - of_int (canvas_w sample_strip) / zoom sample_strip) \<and>
   visible_page_range sample_strip = Inr (1, 0) \<and> pages_x sample_strip = 1 \<and>
   \<not> start_offset sample_strip
       \<le> pan_x sample_strip + of_int (canvas_w sample_strip) / zoom sample_strip"
proof -
  have a: "paginated sample_ltr_750" "0 < zoom sample_ltr_750" "0 < canvas_w sample_ltr_750"
    "0 \<le> pan_x sample_ltr_750"
    "pan_x sample_ltr_750 \<le> max 0 (of_int (img_width sample_ltr_750)
                                    - of_int (canvas_w sample_ltr_750) / zoom sample_ltr_750)"
    by (simp_all add: sample_ltr_750_paginated)
       (simp_all add: sample_ltr_750_def sample_ltr_def sample_def)
  have b: "paginated sample_strip" "0 < zoom sample_strip" "0 < canvas_w sample_strip"
    "0 \<le> pan_x sample_strip"
    "pan_x sample_strip \<le> max 0 (of_int (img_width sample_strip)
                                 - of_int (canvas_w sample_strip) / zoom sample_strip)"
    by (simp_all add: sample_strip_paginated)
       (simp_all add: sample_strip_def sample_ltr_def sample_def)
  have va: "visible_page_range sample_ltr_750 = Inr (1, 2)"
    by (simp add: visible_page_range_def floordiv_def py_int_of_int
        sample_ltr_750_def sample_ltr_def sample_def Let_def)
  have vb: "visible_page_range sample_strip = Inr (1, 0)"
    by (simp add: visible_page_range_def floordiv_def py_int_of_int
        sample_strip_def sample_ltr_def sample_def Let_def)
  have dir: "\<not> right_to_left sample_ltr_750" "\<not> right_to_left sample_strip"
    by (simp_all add: sample_ltr_750_def sample_strip_def sample_ltr_def sample_def)
  from visible_page_range_bounds [OF a] have ca: "pages_x sample_ltr_750 = 2 \<and>
    start_offset sample_ltr_750
     \<le> pan_x sample_ltr_750 + of_int (canvas_w sample_ltr_750) / zoom sample_ltr_750"
    unfolding va if_not_P [OF dir(1)]
    by (simp add: sample_ltr_750_def sample_ltr_def sample_def)
  from visible_page_range_bounds [OF b] have cb: "pages_x sample_strip = 1 \<and>
    \<not> start_offset sample_strip
       \<le> pan_x sample_strip + of_int (canvas_w sample_strip) / zoom sample_strip"
    unfolding vb if_not_P [OF dir(2)]
    by (simp add: sample_strip_def sample_ltr_def sample_def)
  from a b va vb ca cb show ?thesis
    by blast
qed

section \<open>Zoom limits\<close>

lemma load_sample_long:
  "load_image (Loaded strip_image) (init 1400 800) ''/scans/strip.png'' = sample_long"
  by (simp add: load_image_def load_image_body_def fit_to_window_def refresh_view_def init_def
      strip_image_def sample_long_def PAGE_HEIGHT_INCHES_def PAGE_WIDTH_INCHES_def py_int_def
      math_ceil_def os_path_dirname_def Let_def)

lemma refresh_view_zoom:
  "zoom (state_of (refresh_view s)) = zoom s"
  by (simp add: refresh_view_def Let_def split: option.splits)

text \<open>
  C8.  As stated (zoom in \<open>[0.01, 5.0]\<close> after scroll zoom, fit to window and zoom to 100
  percent, for every raster and canvas size) the claim fails for fit to window, which
  does not clamp: a raster 200000 pixels wide on a 1400 pixel canvas is fitted at zoom
  0.00665.  What holds, on a loaded raster of
  positive size with a nonzero zoom: after \<^verbatim>\<open>on_scroll\<close> the zoom lies in
  \<open>[0.01, 5.0]\<close>; after \<^verbatim>\<open>zoom_100\<close> it is 1; after \<^verbatim>\<open>fit_to_window\<close> it is
  \<open>0.95 * min(canvasW / rasterW, canvasH / rasterH)\<close>, the canvas taken as 1400 by 800
  when either side is below 10, which is positive.
\<close>

theorem zoom_after_view_operations:
  assumes loaded: "original_image s \<noteq> None" and z: "zoom s \<noteq> 0"
    and w: "0 < img_width s" and h: "0 < img_height s"
  shows "1 / 100 \<le> zoom (state_of (on_scroll s e)) \<and> zoom (state_of (on_scroll s e)) \<le> 5 \<and>
         zoom (state_of (zoom_100 s)) = 1 \<and>
         zoom (state_of (fit_to_window s)) =
           (if canvas_w s < 10 \<or> canvas_h s < 10
            then min (1400 / of_int (img_width s)) (800 / of_int (img_height s))
            else min (of_int (canvas_w s) / of_int (img_width s))
                     (of_int (canvas_h s) / of_int (img_height s))) * (95 / 100) \<and>
         0 < zoom (state_of (fit_to_window s))"
proof -
  from loaded obtain im where im: "original_image s = Some im"
    by auto
  have scroll: "1 / 100 \<le> zoom (state_of (on_scroll s e)) \<and> zoom (state_of (on_scroll s e)) \<le> 5"
    using im z by (simp add: on_scroll_def Let_def refresh_view_zoom)
  have hundred: "zoom (state_of (zoom_100 s)) = 1"
    using im by (simp add: zoom_100_def refresh_view_zoom)
  have fit: "zoom (state_of (fit_to_window s)) =
           (if canvas_w s < 10 \<or> canvas_h s < 10
            then min (1400 / of_int (img_width s)) (800 / of_int (img_height s))
            else min (of_int (canvas_w s) / of_int (img_width s))
                     (of_int (canvas_h s) / of_int (img_height s))) * (95 / 100)"
    using im w h by (simp add: fit_to_window_def Let_def refresh_view_zoom)
  have "0 < zoom (state_of (fit_to_window s))"
    unfolding fit using w h by (auto simp: min_def)
  with scroll hundred fit show ?thesis
    by blast
qed

theorem fit_to_window_zoom_counterexample:
  "load_image (Loaded strip_image) (init 1400 800) ''/scans/strip.png'' = sample_long \<and>
   fit_to_window sample_long = Done sample_long \<and>
   zoom sample_long = 133 / 20000 \<and> zoom sample_long < 1 / 100"
proof -
  have "fit_to_window sample_long = Done sample_long"
    by (simp add: fit_to_window_def refresh_view_def sample_long_def Let_def)
  moreover have "zoom sample_long = 133 / 20000 \<and> zoom sample_long < 1 / 100"
    by (simp add: sample_long_def)
  ultimately show ?thesis
    using load_sample_long by blast
qed

theorem zoom_after_view_operations_witness:
  "original_image sample \<noteq> None \<and> zoom sample \<noteq> 0 \<and>
   0 < img_width sample \<and> 0 < img_height sample \<and>
   zoom (state_of (on_scroll sample \<lparr>ev_x = 100, ev_y = 100, ev_num = 4, ev_delta = None\<rparr>))
     = 399 / 625 \<and>
   1 / 100 \<le> zoom (state_of (on_scroll sample
                  \<lparr>ev_x = 100, ev_y = 100, ev_num = 4, ev_delta = None\<rparr>)) \<and>
   zoom (state_of (on_scroll sample \<lparr>ev_x = 100, ev_y = 100, ev_num = 4, ev_delta = None\<rparr>))
     \<le> 5 \<and>
   zoom (state_of (zoom_100 sample)) = 1 \<and>
   zoom (state_of (fit_to_window sample)) = 133 / 250"
proof -
  let ?e = "\<lparr>ev_x = 100, ev_y = 100, ev_num = 4, ev_delta = None\<rparr>"
  have a: "original_image sample \<noteq> None" "zoom sample \<noteq> 0"
    "0 < img_width sample" "0 < img_height sample"
    by (simp_all add: sample_def)
  note th = zoom_after_view_operations [OF a, of ?e]
  have v: "zoom (state_of (on_scroll sample ?e)) = 399 / 625"
    by (simp add: on_scroll_def refresh_view_def sample_def Let_def)
  have f: "zoom (state_of (fit_to_window sample)) = 133 / 250"
    using th by (simp add: sample_def)
  from a v f th show ?thesis
    by blast
qed

section \<open>A failed load\<close>

lemma load_image_open_raises:
  "load_image (Open_raises err) s path = s\<lparr>messages := messages s @ [Error_failed_to_load err]\<rparr>"
  by (simp add: load_image_def load_image_body_def)

lemma load_image_load_raises:
  "load_image (Load_raises im err) s path =
     s\<lparr>original_image := Some im, messages := messages s @ [Error_failed_to_load err]\<rparr>"
  by (simp add: load_image_def load_image_body_def)

text \<open>
  C9.  A failed load is to report the error and leave the previous raster, its
  dimensions, the page spec and the pagination as they were.  When \<^verbatim>\<open>Image.open\<close>
  itself raises, \<^verbatim>\<open>load_image\<close> does so (\<open>load_image_open_raises\<close>).  When the
  file opens and \<^verbatim>\<open>load()\<close> raises, the \<^verbatim>\<open>try\<close> block has already rebound
  \<^verbatim>\<open>self.original_image\<close>: after the error message the object holds the new, undecoded
  640 by 480 image together with the width 2500, the page width 1000, the 3 pages and the
  path of the panorama loaded before.
\<close>

theorem load_image_failed_load_replaces_raster:
  "load_image (Loaded pano) (init 1400 800) ''/scans/pano.png'' = sample \<and>
   load_image (Load_raises truncated OSError) sample ''/scans/cut.png''
     = sample\<lparr>original_image := Some truncated, messages := [Error_failed_to_load OSError]\<rparr> \<and>
   original_image (load_image (Load_raises truncated OSError) sample ''/scans/cut.png'')
     \<noteq> original_image sample \<and>
   im_w truncated = 640 \<and>
   img_width (load_image (Load_raises truncated OSError) sample ''/scans/cut.png'') = 2500 \<and>
   page_width_px (load_image (Load_raises truncated OSError) sample ''/scans/cut.png'') = 1000 \<and>
   pages_x (load_image (Load_raises truncated OSError) sample ''/scans/cut.png'') = 3 \<and>
   image_path (load_image (Load_raises truncated OSError) sample ''/scans/cut.png'')
     = Some ''/scans/pano.png''"
proof -
  have ne: "im_w truncated \<noteq> im_w pano"
    by (simp add: truncated_def pano_def)
  then have "truncated \<noteq> pano"
    by auto
  then show ?thesis
    using load_sample
    by (simp add: load_image_load_raises) (simp add: sample_def truncated_def)
qed

section \<open>Exporting one page\<close>

lemma py_round_of_int: "py_round (of_int k) = k"
  by (simp add: py_round_def)

lemma py_round_numeral [simp]: "py_round (numeral n) = numeral n" "py_round 0 = 0"
  "py_round (- numeral n) = - numeral n"
  using py_round_of_int [of "numeral n"] py_round_of_int [of 0] py_round_of_int [of "- numeral n"]
  by simp_all

lemma digits10_small: "n < 10 \<Longrightarrow> digits10 n = [''0123456789'' ! n]"
  by (simp add: digits10.simps)

lemma format_03d_small: "format_03d 0 = ''000''" "format_03d 1 = ''001''" "format_03d 2 = ''002''"
  "format_03d 3 = ''003''"
  by (simp_all add: format_03d_def digits10_small numeral_2_eq_2)

lemma sample_base_name: "splitext_root (os_path_basename ''/scans/pano.png'') = ''pano''"
  by (simp add: splitext_root_def os_path_basename_def)

lemma page_rect_ordered:
  assumes "paginated s" and "1 \<le> n" and "n \<le> pages_x s"
  shows "0 \<le> fst (page_rect s n)" and "fst (page_rect s n) < snd (page_rect s n)"
    and "snd (page_rect s n) \<le> of_int (img_width s)"
proof -
  let ?p = "page_width_px s"
  from assms have p: "0 < ?p" and so: "0 \<le> start_offset s"
    and n: "n \<le> \<lceil>(of_int (img_width s) - start_offset s) / of_int ?p\<rceil>"
    by (simp_all add: paginated_def)
  have lt: "of_int ((n - 1) * ?p) < of_int (img_width s) - start_offset s"
    using below_page_count [OF p n] .
  have ge: "(0::real) \<le> of_int ((n - 1) * ?p)"
    using p assms(2) by simp
  show "0 \<le> fst (page_rect s n)" and "fst (page_rect s n) < snd (page_rect s n)"
    and "snd (page_rect s n) \<le> of_int (img_width s)"
    using lt ge so p by (auto simp: page_rect_def Let_def)
qed

lemma get_page_image_unpadded:
  assumes pg: "paginated s" and n: "1 \<le> n" "n \<le> pages_x s"
    and im: "original_image s = Some im"
    and h: "0 \<le> img_height s"
    and full: "page_crop_width s n = page_width_px s"
  shows "\<exists>page. get_page_image s n = Inr page \<and> im_w page = page_width_px s \<and> mode page = mode im"
proof -
  obtain l r where rect: "page_rect s n = (l, r)"
    by (cases "page_rect s n")
  from page_rect_ordered [OF pg n] rect have lr: "\<not> r < l"
    by simp
  from full have "py_round r - py_round l = page_width_px s"
    by (simp add: page_crop_width_def rect)
  then show ?thesis
    using lr h im by (simp add: get_page_image_def rect crop_def Let_def)
qed

lemma get_page_image_in_range:
  assumes pg: "paginated s" and n: "1 \<le> n" "n \<le> pages_x s"
    and im: "original_image s = Some im"
    and h: "0 \<le> img_height s" "0 \<le> page_height_px s"
    and ink: "fill_ink (mode im) white = Inr v"
  shows "\<exists>page. get_page_image s n = Inr page \<and> im_w page = page_width_px s \<and> mode page = mode im"
proof -
  obtain l r where rect: "page_rect s n = (l, r)"
    by (cases "page_rect s n")
  from page_rect_ordered [OF pg n] rect have lr: "\<not> r < l"
    by simp
  from pg have p: "\<not> page_width_px s < 0"
    by (simp add: paginated_def)
  show ?thesis
    using lr p h im ink
    by (simp add: get_page_image_def rect crop_def image_new_def paste_def Let_def)
qed

lemma export_page_raised:
  "export_page writable s n = Raised err t \<Longrightarrow> t = s"
  by (auto simp: export_page_def Let_def split: sum.splits option.splits if_splits)

lemma export_page_done:
  "export_page writable s n = Done t \<Longrightarrow> \<exists>f. t = s\<lparr>files := files s @ [f]\<rparr>"
  by (auto simp: export_page_def Let_def split: sum.splits option.splits if_splits)

text \<open>
  C5.  As stated the claim fails twice.  \<^verbatim>\<open>export_page\<close> has no range check of its
  own and there is no export error in the code: page 0 of a left-to-right panorama is
  cropped and written.  And inside \<open>[1, pageCount]\<close> a writable directory is not enough:
  the padded last page of a greyscale panorama raises \<^verbatim>\<open>TypeError\<close>, because the
  white fill colour is a tuple of three.  What holds, on a paginated raster with the
  output directory set: the range check is made by the caller,
  \<^verbatim>\<open>export_clicked_page\<close>, which calls \<^verbatim>\<open>export_page\<close> only when the page under
  the click lies in \<open>[1, pageCount]\<close> and otherwise writes nothing and raises nothing;
  and for every page number in \<open>[1, pageCount]\<close> whose output path is writable, on a
  raster of a mode that PNG stores, \<^verbatim>\<open>export_page\<close> succeeds and writes exactly
  that one file when the page needs no padding or the mode of the raster takes the fill
  colour.
\<close>

theorem export_page_range_check:
  assumes pg: "paginated s" and im: "original_image s = Some im"
    and h: "0 \<le> img_height s" "0 \<le> page_height_px s"
    and path: "image_path s = Some path" and dir: "output_dir s = Some dir" "dir \<noteq> []"
    and z: "zoom s \<noteq> 0"
  shows "(1 \<le> n \<and> n \<le> pages_x s \<and>
          writable (os_path_join dir (splitext_root (os_path_basename path) @ ''_page''
                                       @ format_03d n @ ''.png'')) \<and>
          png_stores (mode im) \<and>
          (page_crop_width s n = page_width_px s \<or> (\<exists>v. fill_ink (mode im) white = Inr v))
          \<longrightarrow> (\<exists>page. export_page writable s n =
                  Done (s\<lparr>files := files s @
                    [(os_path_join dir (splitext_root (os_path_basename path) @ ''_page''
                                         @ format_03d n @ ''.png''), page)]\<rparr>))) \<and>
         (page_num_at s (pan_x s + of_int canvas_x / zoom s) = Inr k \<and>
          \<not> (1 \<le> k \<and> k \<le> pages_x s)
          \<longrightarrow> export_clicked_page writable s canvas_x canvas_y = Done s) \<and>
         (page_num_at s (pan_x s + of_int canvas_x / zoom s) = Inr k \<and> 1 \<le> k \<and> k \<le> pages_x s
          \<longrightarrow> export_clicked_page writable s canvas_x canvas_y = export_page writable s k)"
proof -
  have inside: "\<exists>page. export_page writable s n =
                  Done (s\<lparr>files := files s @
                    [(os_path_join dir (splitext_root (os_path_basename path) @ ''_page''
                                         @ format_03d n @ ''.png''), page)]\<rparr>)"
    if n: "1 \<le> n" "n \<le> pages_x s"
      and wr: "writable (os_path_join dir (splitext_root (os_path_basename path) @ ''_page''
                                       @ format_03d n @ ''.png''))"
      and png: "png_stores (mode im)"
      and pad: "page_crop_width s n = page_width_px s \<or> (\<exists>v. fill_ink (mode im) white = Inr v)"
  proof -
    from pad have "\<exists>page. get_page_image s n = Inr page \<and> im_w page = page_width_px s
                     \<and> mode page = mode im"
    proof
      assume "page_crop_width s n = page_width_px s"
      then show ?thesis
        by (rule get_page_image_unpadded [OF pg n im h(1)])
    next
      assume "\<exists>v. fill_ink (mode im) white = Inr v"
      then obtain v where "fill_ink (mode im) white = Inr v" ..
      then show ?thesis
        by (rule get_page_image_in_range [OF pg n im h])
    qed
    then obtain page where "get_page_image s n = Inr page" and "mode page = mode im"
      by blast
    then show ?thesis
      using path dir wr png by (intro exI [of _ page]) (simp add: export_page_def Let_def)
  qed
  have clicked: "export_clicked_page writable s canvas_x canvas_y =
      (if 1 \<le> k \<and> k \<le> pages_x s then export_page writable s k else Done s)"
    if "page_num_at s (pan_x s + of_int canvas_x / zoom s) = Inr k"
    using that im dir z by (simp add: export_clicked_page_def)
  from inside clicked show ?thesis
    by auto
qed

lemma sample_grey_paginated: "paginated sample_grey"
  by (simp add: paginated_def sample_grey_def sample_ltr_def sample_def)

theorem export_page_0_counterexample:
  "pages_x sample_ltr = 3 \<and> \<not> 1 \<le> (0::int) \<and> files sample_ltr = [] \<and>
   export_page any_path sample_ltr 0 = Done (state_of (export_page any_path sample_ltr 0)) \<and>
   map fst (files (state_of (export_page any_path sample_ltr 0))) = [''/scans/pano_page000.png''] \<and>
   paginated sample_grey \<and> original_image sample_grey = Some pano_grey \<and>
   mode pano_grey = Mode_L \<and> pages_x sample_grey = 3 \<and>
   output_dir sample_grey = Some ''/scans'' \<and> any_path ''/scans/pano_page003.png'' \<and>
   export_page any_path sample_grey 3 = Raised TypeError sample_grey \<and>
   files sample_grey = []"
proof -
  have "pages_x sample_ltr = 3 \<and> \<not> 1 \<le> (0::int) \<and> files sample_ltr = [] \<and>
   export_page any_path sample_ltr 0 = Done (state_of (export_page any_path sample_ltr 0)) \<and>
   map fst (files (state_of (export_page any_path sample_ltr 0))) = [''/scans/pano_page000.png'']"
    by (simp add: export_page_def get_page_image_def page_rect_def crop_def image_new_def paste_def
       sample_ltr_def sample_def pano_def Let_def format_03d_small sample_base_name os_path_join_def
       any_path_def)
  moreover have "export_page any_path sample_grey 3 = Raised TypeError sample_grey"
    by (simp add: export_page_def get_page_image_def page_rect_def crop_def image_new_def
        fill_ink_def white_def sample_grey_def sample_ltr_def sample_def pano_grey_def Let_def)
  moreover have "original_image sample_grey = Some pano_grey \<and>
   mode pano_grey = Mode_L \<and> pages_x sample_grey = 3 \<and>
   output_dir sample_grey = Some ''/scans'' \<and> any_path ''/scans/pano_page003.png'' \<and>
   files sample_grey = []"
    by (simp add: sample_grey_def sample_ltr_def sample_def pano_grey_def any_path_def)
  ultimately show ?thesis
    using sample_grey_paginated by blast
qed

theorem export_page_range_check_witness:
  "paginated sample_ltr_750 \<and> original_image sample_ltr_750 = Some pano \<and>
   0 \<le> img_height sample_ltr_750 \<and> 0 \<le> page_height_px sample_ltr_750 \<and>
   image_path sample_ltr_750 = Some ''/scans/pano.png'' \<and>
   output_dir sample_ltr_750 = Some ''/scans'' \<and> ''/scans'' \<noteq> [] \<and> zoom sample_ltr_750 \<noteq> 0 \<and>
   (1::int) \<le> 2 \<and> 2 \<le> pages_x sample_ltr_750 \<and> any_path ''/scans/pano_page002.png'' \<and>
   png_stores (mode pano) \<and> fill_ink (mode pano) white = Inr [255, 255, 255] \<and>
   map fst (files (state_of (export_page any_path sample_ltr_750 2)))
     = [''/scans/pano_page002.png''] \<and>
   page_num_at sample_ltr_750 (pan_x sample_ltr_750 + of_int 100 / zoom sample_ltr_750) = Inr 0 \<and>
   export_clicked_page any_path sample_ltr_750 100 50 = Done sample_ltr_750 \<and>
   page_num_at sample_ltr_750 (pan_x sample_ltr_750 + of_int 1000 / zoom sample_ltr_750) = Inr 2 \<and>
   export_clicked_page any_path sample_ltr_750 1000 50 = export_page any_path sample_ltr_750 2"
proof -
  have a: "paginated sample_ltr_750" "original_image sample_ltr_750 = Some pano"
    "0 \<le> img_height sample_ltr_750" "0 \<le> page_height_px sample_ltr_750"
    "image_path sample_ltr_750 = Some ''/scans/pano.png''"
    "output_dir sample_ltr_750 = Some ''/scans''" "''/scans'' \<noteq> []" "zoom sample_ltr_750 \<noteq> 0"
    by (simp_all add: sample_ltr_750_paginated)
       (simp_all add: sample_ltr_750_def sample_ltr_def sample_def)
  have b: "(1::int) \<le> 2" "2 \<le> pages_x sample_ltr_750" "files sample_ltr_750 = []"
    by (simp_all add: sample_ltr_750_def sample_ltr_def sample_def)
  have name: "os_path_join ''/scans'' (splitext_root (os_path_basename ''/scans/pano.png'')
                 @ ''_page'' @ format_03d 2 @ ''.png'') = ''/scans/pano_page002.png''"
    by (simp add: sample_base_name format_03d_small os_path_join_def)
  have wr: "any_path ''/scans/pano_page002.png''"
    by (simp add: any_path_def)
  have m: "png_stores (mode pano)" "fill_ink (mode pano) white = Inr [255, 255, 255]"
    by (simp_all add: pano_def fill_ink_def white_def)
  have k0: "page_num_at sample_ltr_750 (pan_x sample_ltr_750 + of_int 100 / zoom sample_ltr_750)
             = Inr 0"
    and k2: "page_num_at sample_ltr_750 (pan_x sample_ltr_750 + of_int 1000 / zoom sample_ltr_750)
             = Inr 2"
    by (simp_all add: page_num_at_def floordiv_def py_int_of_int
        sample_ltr_750_def sample_ltr_def sample_def)
  note th = export_page_range_check [OF a, of _ any_path]
  from th [of 2, THEN conjunct1] b wr m obtain page where
    "export_page any_path sample_ltr_750 2 =
       Done (sample_ltr_750\<lparr>files := files sample_ltr_750 @ [(''/scans/pano_page002.png'', page)]\<rparr>)"
    unfolding name by blast
  then have c1: "map fst (files (state_of (export_page any_path sample_ltr_750 2)))
     = [''/scans/pano_page002.png'']"
    by (simp add: b)
  have c2: "export_clicked_page any_path sample_ltr_750 100 50 = Done sample_ltr_750"
    using th [of 2 100 0 50, THEN conjunct2, THEN conjunct1] k0 by simp
  have c3: "export_clicked_page any_path sample_ltr_750 1000 50
              = export_page any_path sample_ltr_750 2"
    using th [of 2 1000 2 50, THEN conjunct2, THEN conjunct2] k2 b by simp
  from a b(1,2) wr m c1 k0 c2 k2 c3 show ?thesis
    by blast
qed

section \<open>Batch export\<close>

lemma export_each_append:
  "export_each writable s (xs @ ys) =
     (case export_each writable s xs of
        Raised err t \<Rightarrow> Raised err t
      | Done t \<Rightarrow> export_each writable t ys)"
  by (induction xs arbitrary: s) (auto split: outcome.splits)

lemma export_page_keeps:
  assumes "export_page writable s n = Done t"
  shows "length (files t) = Suc (length (files s))" and "messages t = messages s"
  using export_page_done [OF assms] by auto

lemma export_each_keeps:
  assumes "export_each writable s ns = Done t"
  shows "length (files t) = length (files s) + length ns \<and> messages t = messages s"
  using assms
proof (induction ns arbitrary: s)
  case Nil
  then show ?case by simp
next
  case (Cons n ns)
  from Cons.prems obtain u where u: "export_page writable s n = Done u"
    and rest: "export_each writable u ns = Done t"
    by (auto split: outcome.splits)
  from Cons.IH [OF rest] export_page_keeps [OF u] show ?case
    by simp
qed

lemma export_each_first_failure:
  assumes "export_each writable s before = Done t"
    and "export_page writable t n = Raised err t'"
  shows "export_each writable s (before @ n # rest) = Raised err t"
  using assms export_page_raised [OF assms(2)] by (simp add: export_each_append)

text \<open>
  C6.  As stated (a batch continues past a page that fails and reports the counts of
  pages exported and failed) the claim fails: neither batch export catches the exception
  of \<^verbatim>\<open>export_page\<close>, so the first failing page ends the batch and no report is
  shown.  What holds, for
  \<^verbatim>\<open>export_all_pages\<close> over pages 1 to the page count and for
  \<^verbatim>\<open>export_visible_pages\<close> over the visible range, once the user has confirmed: the
  per-page export is applied to the pages in ascending order; when every page succeeds,
  one file per page has been written and the number of pages exported is reported; when
  a page fails, the batch ends with that page's error, the files of the pages before it
  stay written, the pages after it are not attempted and no report is shown.
\<close>

theorem batch_export_stops_at_first_failure:
  assumes ready: "original_image s \<noteq> None" "output_dir s = Some dir" "dir \<noteq> []"
    and s1: "s1 = s\<lparr>messages := messages s @ [Confirm_export_all (pages_x s)]\<rparr>"
    and vis: "visible_page_range s = Inr (start_page, end_page)"
    and s2: "s2 = s\<lparr>messages := messages s @
               [Confirm_export_visible (end_page - start_page + 1) start_page end_page]\<rparr>"
  shows "(export_each writable s1 [1..pages_x s] = Done t \<longrightarrow>
            export_all_pages writable True s
              = Done (t\<lparr>messages := messages s1 @ [Info_exported (pages_x s)]\<rparr>) \<and>
            length (files t) = length (files s) + length [1..pages_x s]) \<and>
         ([1..pages_x s] = before @ n # rest \<and> export_each writable s1 before = Done t \<and>
          export_page writable t n = Raised err t' \<longrightarrow>
            export_all_pages writable True s = Raised err t \<and>
            length (files t) = length (files s) + length before \<and> messages t = messages s1) \<and>
         (export_each writable s2 [start_page..end_page] = Done t \<longrightarrow>
            export_visible_pages writable True s
              = Done (t\<lparr>messages := messages s2 @ [Info_exported (end_page - start_page + 1)]\<rparr>) \<and>
            length (files t) = length (files s) + length [start_page..end_page]) \<and>
         ([start_page..end_page] = before @ n # rest \<and> export_each writable s2 before = Done t \<and>
          export_page writable t n = Raised err t' \<longrightarrow>
            export_visible_pages writable True s = Raised err t \<and>
            length (files t) = length (files s) + length before \<and> messages t = messages s2)"
proof -
  have unfold_all: "export_all_pages writable True s =
      (case export_each writable s1 [1..pages_x s] of
         Raised err s' \<Rightarrow> Raised err s'
       | Done s' \<Rightarrow> Done (s'\<lparr>messages := messages s' @ [Info_exported (pages_x s)]\<rparr>))"
    using ready unfolding s1 by (auto simp: export_all_pages_def Let_def)
  have unfold_vis: "export_visible_pages writable True s =
      (case export_each writable s2 [start_page..end_page] of
         Raised err s' \<Rightarrow> Raised err s'
       | Done s' \<Rightarrow>
           Done (s'\<lparr>messages := messages s' @ [Info_exported (end_page - start_page + 1)]\<rparr>))"
    using ready vis unfolding s2 by (auto simp: export_visible_pages_def Let_def)
  have all_ok: "export_all_pages writable True s
              = Done (t\<lparr>messages := messages s1 @ [Info_exported (pages_x s)]\<rparr>) \<and>
            length (files t) = length (files s) + length [1..pages_x s]"
    if ok: "export_each writable s1 [1..pages_x s] = Done t"
  proof -
    from export_each_keeps [OF ok] have "length (files t) = length (files s) + length [1..pages_x s]"
      and "messages t = messages s1"
      by (simp_all add: s1)
    then show ?thesis
      using ok by (simp add: unfold_all)
  qed
  have all_fail: "export_all_pages writable True s = Raised err t \<and>
            length (files t) = length (files s) + length before \<and> messages t = messages s1"
    if split: "[1..pages_x s] = before @ n # rest"
      and ok: "export_each writable s1 before = Done t"
      and bad: "export_page writable t n = Raised err t'"
  proof -
    from export_each_first_failure [OF ok bad, of rest]
    have "export_each writable s1 [1..pages_x s] = Raised err t"
      by (simp add: split)
    moreover from export_each_keeps [OF ok]
    have "length (files t) = length (files s) + length before \<and> messages t = messages s1"
      by (simp add: s1)
    ultimately show ?thesis
      by (simp add: unfold_all)
  qed
  have vis_ok: "export_visible_pages writable True s
              = Done (t\<lparr>messages := messages s2 @ [Info_exported (end_page - start_page + 1)]\<rparr>) \<and>
            length (files t) = length (files s) + length [start_page..end_page]"
    if ok: "export_each writable s2 [start_page..end_page] = Done t"
  proof -
    from export_each_keeps [OF ok]
    have "length (files t) = length (files s) + length [start_page..end_page]"
      and "messages t = messages s2"
      by (simp_all add: s2)
    then show ?thesis
      using ok by (simp add: unfold_vis)
  qed
  have vis_fail: "export_visible_pages writable True s = Raised err t \<and>
            length (files t) = length (files s) + length before \<and> messages t = messages s2"
    if split: "[start_page..end_page] = before @ n # rest"
      and ok: "export_each writable s2 before = Done t"
      and bad: "export_page writable t n = Raised err t'"
  proof -
    from export_each_first_failure [OF ok bad, of rest]
    have "export_each writable s2 [start_page..end_page] = Raised err t"
      by (simp add: split)
    moreover from export_each_keeps [OF ok]
    have "length (files t) = length (files s) + length before \<and> messages t = messages s2"
      by (simp add: s2)
    ultimately show ?thesis
      by (simp add: unfold_vis)
  qed
  from all_ok all_fail vis_ok vis_fail show ?thesis
    by blast
qed


lemma upto_1_3: "[1..3] = [1, 2, 3]"
  by (simp add: upto_rec1)

lemmas export_page_eval =
  export_page_def get_page_image_def page_rect_def crop_def image_new_def paste_def Let_def
  format_03d_small sample_base_name os_path_join_def

theorem batch_export_aborts_counterexample:
  "pages_x sample_ltr = 3 \<and> all_but_page_2 ''/scans/pano_page003.png'' \<and>
   export_all_pages all_but_page_2 True sample_ltr
     = Raised OSError (state_of (export_all_pages all_but_page_2 True sample_ltr)) \<and>
   map fst (files (state_of (export_all_pages all_but_page_2 True sample_ltr)))
     = [''/scans/pano_page001.png''] \<and>
   messages (state_of (export_all_pages all_but_page_2 True sample_ltr)) = [Confirm_export_all 3]"
  by (simp add: export_all_pages_def export_page_eval all_but_page_2_def
      sample_ltr_def sample_def pano_def upto_1_3)

theorem batch_export_stops_at_first_failure_witness:
  "original_image sample_ltr \<noteq> None \<and> output_dir sample_ltr = Some ''/scans'' \<and>
   ''/scans'' \<noteq> [] \<and> visible_page_range sample_ltr = Inr (1, 3) \<and>
   [1..pages_x sample_ltr] = [1] @ 2 # [3] \<and>
   export_page all_but_page_2
     (state_of (export_each all_but_page_2
        (sample_ltr\<lparr>messages := messages sample_ltr @ [Confirm_export_all (pages_x sample_ltr)]\<rparr>)
        [1])) 2
     = Raised OSError
        (state_of (export_each all_but_page_2
           (sample_ltr\<lparr>messages := messages sample_ltr @ [Confirm_export_all (pages_x sample_ltr)]\<rparr>)
           [1])) \<and>
   export_all_pages all_but_page_2 True sample_ltr
     = Raised OSError
        (state_of (export_each all_but_page_2
           (sample_ltr\<lparr>messages := messages sample_ltr @ [Confirm_export_all (pages_x sample_ltr)]\<rparr>)
           [1])) \<and>
   length (files (state_of (export_each all_but_page_2
           (sample_ltr\<lparr>messages := messages sample_ltr @ [Confirm_export_all (pages_x sample_ltr)]\<rparr>)
           [1]))) = length (files sample_ltr) + length [1::int]"
proof -
  let ?s1 = "sample_ltr\<lparr>messages := messages sample_ltr @ [Confirm_export_all (pages_x sample_ltr)]\<rparr>"
  let ?t = "state_of (export_each all_but_page_2 ?s1 [1])"
  have a: "original_image sample_ltr \<noteq> None" "output_dir sample_ltr = Some ''/scans''"
    "''/scans'' \<noteq> []"
    by (simp_all add: sample_ltr_def sample_def)
  have vis: "visible_page_range sample_ltr = Inr (1, 3)"
    by (simp add: visible_page_range_def floordiv_def py_int_of_int
        sample_ltr_def sample_def Let_def)
  have pages: "[1..pages_x sample_ltr] = [1] @ 2 # [3]"
    by (simp add: sample_ltr_def sample_def upto_1_3)
  have ok: "export_each all_but_page_2 ?s1 [1] = Done ?t"
    by (simp add: export_page_eval all_but_page_2_def sample_ltr_def sample_def pano_def)
  have bad: "export_page all_but_page_2 ?t 2 = Raised OSError ?t"
    by (simp add: export_page_eval all_but_page_2_def sample_ltr_def sample_def pano_def)
  note th = batch_export_stops_at_first_failure [OF a refl vis refl,
      of all_but_page_2 ?t "[1]" 2 "[3]" OSError ?t]
  from th [THEN conjunct2, THEN conjunct1] pages ok bad
  have "export_all_pages all_but_page_2 True sample_ltr = Raised OSError ?t \<and>
        length (files ?t) = length (files sample_ltr) + length [1::int]"
    by blast
  with a vis pages bad show ?thesis
    by blast
qed

section \<open>Page size and padding\<close>

lemma py_round_cases: "py_round x = \<lfloor>x\<rfloor> \<or> py_round x = \<lfloor>x\<rfloor> + 1"
  by (simp add: py_round_def Let_def)

lemma py_round_mono:
  assumes "x \<le> y"
  shows "py_round x \<le> py_round y"
proof (cases "\<lfloor>x\<rfloor> = \<lfloor>y\<rfloor>")
  case True
  with assms show ?thesis
    by (auto simp: py_round_def Let_def)
next
  case False
  with assms have "\<lfloor>x\<rfloor> + 1 \<le> \<lfloor>y\<rfloor>"
    using floor_mono [OF assms] by linarith
  moreover have "py_round x \<le> \<lfloor>x\<rfloor> + 1" and "\<lfloor>y\<rfloor> \<le> py_round y"
    using py_round_cases [of x] py_round_cases [of y] by auto
  ultimately show ?thesis
    by linarith
qed

lemma py_round_within:
  assumes "0 \<le> x" and "x \<le> of_int w"
  shows "0 \<le> py_round x" and "py_round x \<le> w"
  using py_round_mono [OF assms(1)] py_round_mono [OF assms(2)] by (simp_all add: py_round_of_int)

lemma whole_offset_full_crop:
  assumes pg: "paginated s" and n: "1 \<le> n" "n < pages_x s"
    and k: "start_offset s = of_int k"
  shows "page_crop_width s n = page_width_px s"
proof -
  let ?p = "page_width_px s" and ?w = "img_width s"
  from pg n have p: "0 < ?p"
    and N: "n + 1 \<le> \<lceil>(of_int ?w - start_offset s) / of_int ?p\<rceil>"
    by (simp_all add: paginated_def)
  have "real_of_int (n * ?p) < of_int ?w - start_offset s"
    using below_page_count [OF p N] by simp
  then have lt: "real_of_int n * real_of_int ?p < real_of_int ?w - real_of_int k"
    by (simp add: k)
  show ?thesis
  proof (cases "right_to_left s")
    case True
    have "page_rect s n = (of_int (?w - k - n * ?p), of_int (?w - k - (n - 1) * ?p))"
      using True lt by (simp add: page_rect_def Let_def k max_def algebra_simps)
    then show ?thesis
      by (simp only: page_crop_width_def py_round_of_int split) (simp add: algebra_simps)
  next
    case False
    have "page_rect s n = (of_int (k + (n - 1) * ?p), of_int (k + n * ?p))"
      using False lt by (simp add: page_rect_def Let_def k min_def algebra_simps)
    then show ?thesis
      by (simp only: page_crop_width_def py_round_of_int split) (simp add: algebra_simps)
  qed
qed

lemma get_page_image_pixels:
  assumes pg: "paginated s" and n: "1 \<le> n" "n \<le> pages_x s"
    and im: "original_image s = Some im"
    and sz: "im_w im = img_width s" "im_h im = img_height s"
    and h: "0 < img_height s" and ph: "page_height_px s = img_height s"
    and ink: "fill_ink (mode im) white = Inr v"
  shows "\<exists>page. get_page_image s n = Inr page \<and>
           im_w page = page_width_px s \<and> im_h page = page_height_px s \<and>
           (page_crop_width s n < page_width_px s \<longrightarrow>
              (\<forall>x y. 0 \<le> x \<and> x < page_width_px s \<and> 0 \<le> y \<and> y < page_height_px s \<longrightarrow>
                 getpixel page x y =
                   (if right_to_left s
                    then (if x < page_width_px s - page_crop_width s n then v
                          else getpixel im
                                 (py_round (fst (page_rect s n))
                                    + (x - (page_width_px s - page_crop_width s n))) y)
                    else (if x < page_crop_width s n
                          then getpixel im (py_round (fst (page_rect s n)) + x) y
                          else v))))"
proof -
  obtain l r where rect: "page_rect s n = (l, r)"
    by (cases "page_rect s n")
  from page_rect_ordered [OF pg n] rect
  have lr: "0 \<le> l" "l < r" "r \<le> of_int (img_width s)"
    by simp_all
  have X0: "0 \<le> py_round l" and X1: "py_round r \<le> img_width s"
    using py_round_within [of l "img_width s"] py_round_within [of r "img_width s"] lr
    by simp_all
  from pg have p: "0 < page_width_px s"
    by (simp add: paginated_def)
  define cw where "cw = py_round r - py_round l"
  have cw: "page_crop_width s n = cw"
    by (simp add: page_crop_width_def rect cw_def)
  define cropped where "cropped =
    \<lparr>im_w = cw, im_h = img_height s, mode = mode im,
      getpixel = (\<lambda>x y. if 0 \<le> x + py_round l \<and> x + py_round l < im_w im
                              \<and> 0 \<le> y + 0 \<and> y + 0 < im_h im
                           then getpixel im (x + py_round l) (y + 0)
                           else replicate (bands (mode im)) 0)\<rparr>"
  have crop_eq: "crop im (l, 0, r, of_int (img_height s)) = Inr cropped"
    using lr h by (simp add: crop_def Let_def cropped_def cw_def py_round_of_int)
  show ?thesis
  proof (cases "cw = page_width_px s")
    case True
    then have "get_page_image s n = Inr cropped"
      using im by (simp add: get_page_image_def rect crop_eq cropped_def)
    then show ?thesis
      using True by (simp add: cropped_def ph cw)
  next
    case False
    define canvas where "canvas =
      \<lparr>im_w = page_width_px s, im_h = page_height_px s, mode = mode im,
        getpixel = (\<lambda>x y. v)\<rparr>"
    have new_eq: "image_new (mode im) (page_width_px s, page_height_px s) white = Inr canvas"
      using p h ink by (simp add: image_new_def canvas_def ph)
    define page where "page =
      (if right_to_left s then paste canvas cropped (page_width_px s - cw, 0)
       else paste canvas cropped (0, 0))"
    have res: "get_page_image s n = Inr page"
      using False im
      by (simp add: get_page_image_def rect crop_eq new_eq page_def) (simp add: cropped_def)
    have size: "im_w page = page_width_px s" "im_h page = page_height_px s"
      by (simp_all add: page_def paste_def canvas_def)
    have pixels: "getpixel page x y =
                   (if right_to_left s
                    then (if x < page_width_px s - cw then v
                          else getpixel im (py_round l + (x - (page_width_px s - cw))) y)
                    else (if x < cw then getpixel im (py_round l + x) y else v))"
      if "cw < page_width_px s" and x: "0 \<le> x" "x < page_width_px s"
        and y: "0 \<le> y" "y < page_height_px s" for x y
      using that X0 X1 sz ph
      by (auto simp: page_def paste_def canvas_def cropped_def cw_def add.commute)
    from res size pixels show ?thesis
      unfolding cw rect fst_conv by blast
  qed
qed

lemma export_page_writes_page_image:
  assumes "get_page_image s n = Inr page" and "export_page writable s n = Done t"
  shows "snd (last (files t)) = page"
  using assms by (auto simp: export_page_def Let_def split: option.splits if_splits)


lemma load_sample_scan:
  "load_image (Loaded scan) ((init 1400 800)\<lparr>right_to_left := False\<rparr>) ''/scans/scan.png''
     = sample_scan"
  by (simp add: load_image_def load_image_body_def fit_to_window_def refresh_view_def init_def
      scan_def sample_scan_def PAGE_HEIGHT_INCHES_def PAGE_WIDTH_INCHES_def py_int_def
      math_ceil_def os_path_dirname_def Let_def)

lemma right_click_sample_scan:
  "on_right_click sample_scan \<lparr>ev_x = 19, ev_y = 10, ev_num = 3, ev_delta = None\<rparr>
     = Done sample_scan_half"
  by (simp add: on_right_click_def refresh_view_def sample_scan_half_def sample_scan_def
      math_ceil_def Let_def)

lemma sample_scan_half_paginated: "paginated sample_scan_half"
  by (simp add: paginated_def sample_scan_half_def sample_scan_def)

text \<open>
  C2.  As stated the claim fails in three places.  Its closing clause puts the content of
  the short page of the 2500 by 1000 scenario at the edge away from the traversal start;
  the code puts the padding there and the content at the edge nearest the start.  A crop
  narrower than \<open>pageWidthPx\<close> is not only the last page: the box is rounded to whole
  pixels, and with the start offset 12.5 on a raster 875 wide the crop of page 2 of 3 is
  388 wide for a page width of 389.  And a greyscale raster gets no page image at all
  when padding is needed, because the white fill colour is a tuple of three.
  What holds, for a paginated raster whose page height is the raster height, whose mode
  takes the fill colour, and a page number between 1 and the page count: the page image
  of \<^verbatim>\<open>get_page_image\<close>, which is also what \<^verbatim>\<open>export_page\<close> writes, is exactly
  \<open>pageWidthPx\<close> by \<open>pageHeightPx\<close>; when the crop is narrower than \<open>pageWidthPx\<close> it
  lies on a canvas of the fill colour, padded on the left for right-to-left (content in
  the columns at the right edge) and padded on the right for left-to-right (content in
  the columns at the left edge); and when the start offset is a whole number of pixels
  the crop of every page before the last is exactly \<open>pageWidthPx\<close> wide.
\<close>

theorem page_image_size_and_padding:
  assumes pg: "paginated s" and n: "1 \<le> n" "n \<le> pages_x s"
    and im: "original_image s = Some im"
    and sz: "im_w im = img_width s" "im_h im = img_height s"
    and h: "0 < img_height s" and ph: "page_height_px s = img_height s"
    and ink: "fill_ink (mode im) white = Inr v"
  shows "\<exists>page. get_page_image s n = Inr page \<and>
           im_w page = page_width_px s \<and> im_h page = page_height_px s \<and>
           (\<forall>writable t. export_page writable s n = Done t \<longrightarrow> snd (last (files t)) = page) \<and>
           (page_crop_width s n < page_width_px s \<longrightarrow>
              (\<forall>x y. 0 \<le> x \<and> x < page_width_px s \<and> 0 \<le> y \<and> y < page_height_px s \<longrightarrow>
                 getpixel page x y =
                   (if right_to_left s
                    then (if x < page_width_px s - page_crop_width s n then v
                          else getpixel im
                                 (py_round (fst (page_rect s n))
                                    + (x - (page_width_px s - page_crop_width s n))) y)
                    else (if x < page_crop_width s n
                          then getpixel im (py_round (fst (page_rect s n)) + x) y
                          else v)))) \<and>
           (of_int \<lfloor>start_offset s\<rfloor> = start_offset s \<and> n < pages_x s
              \<longrightarrow> page_crop_width s n = page_width_px s)"
proof -
  from get_page_image_pixels [OF assms] obtain page where
    page: "get_page_image s n = Inr page"
    and size: "im_w page = page_width_px s" "im_h page = page_height_px s"
    and pixels: "page_crop_width s n < page_width_px s \<longrightarrow>
              (\<forall>x y. 0 \<le> x \<and> x < page_width_px s \<and> 0 \<le> y \<and> y < page_height_px s \<longrightarrow>
                 getpixel page x y =
                   (if right_to_left s
                    then (if x < page_width_px s - page_crop_width s n then v
                          else getpixel im
                                 (py_round (fst (page_rect s n))
                                    + (x - (page_width_px s - page_crop_width s n))) y)
                    else (if x < page_crop_width s n
                          then getpixel im (py_round (fst (page_rect s n)) + x) y
                          else v)))"
    by blast
  have written: "\<forall>writable t. export_page writable s n = Done t \<longrightarrow> snd (last (files t)) = page"
    using export_page_writes_page_image [OF page] by blast
  have whole: "of_int \<lfloor>start_offset s\<rfloor> = start_offset s \<and> n < pages_x s
              \<longrightarrow> page_crop_width s n = page_width_px s"
  proof (intro impI)
    assume a: "of_int \<lfloor>start_offset s\<rfloor> = start_offset s \<and> n < pages_x s"
    show "page_crop_width s n = page_width_px s"
      by (rule whole_offset_full_crop [OF pg n(1) a [THEN conjunct2]
            a [THEN conjunct1, symmetric]])
  qed
  from page size written pixels whole show ?thesis
    by blast
qed

lemma sample_ltr_page_3:
  "page_rect sample_ltr 3 = (2000, 2500)" "page_crop_width sample_ltr 3 = 500"
  "page_rect sample 3 = (0, 500)" "page_crop_width sample 3 = 500"
  by (simp_all add: page_crop_width_def page_rect_def sample_ltr_def sample_def)

theorem short_page_content_edge_counterexample:
  "\<not> right_to_left sample_ltr \<and> pages_x sample_ltr = 3 \<and>
   page_rect sample_ltr 3 = (2000, 2500) \<and>
   \<not> isl (get_page_image sample_ltr 3) \<and>
   im_w (projr (get_page_image sample_ltr 3)) = 1000 \<and>
   getpixel (projr (get_page_image sample_ltr 3)) 0 0 = getpixel pano 2000 0 \<and>
   getpixel pano 2000 0 \<noteq> [255, 255, 255] \<and>
   getpixel (projr (get_page_image sample_ltr 3)) 999 0 = [255, 255, 255] \<and>
   load_image (Loaded scan) ((init 1400 800)\<lparr>right_to_left := False\<rparr>) ''/scans/scan.png''
     = sample_scan \<and>
   on_right_click sample_scan \<lparr>ev_x = 19, ev_y = 10, ev_num = 3, ev_delta = None\<rparr>
     = Done sample_scan_half \<and>
   paginated sample_scan_half \<and> start_offset sample_scan_half = 25 / 2 \<and>
   pages_x sample_scan_half = 3 \<and> page_width_px sample_scan_half = 389 \<and>
   page_rect sample_scan_half 2 = (803 / 2, 1581 / 2) \<and>
   page_crop_width sample_scan_half 2 = 388 \<and>
   im_w (projr (get_page_image sample_scan_half 2)) = 389 \<and>
   getpixel (projr (get_page_image sample_scan_half 2)) 388 0 = [255, 255, 255] \<and>
   paginated sample_grey \<and> pages_x sample_grey = 3 \<and> mode pano_grey = Mode_L \<and>
   original_image sample_grey = Some pano_grey \<and>
   get_page_image sample_grey 3 = Inl TypeError"
proof -
  have a: "\<not> right_to_left sample_ltr \<and> pages_x sample_ltr = 3 \<and>
   page_rect sample_ltr 3 = (2000, 2500) \<and>
   \<not> isl (get_page_image sample_ltr 3) \<and>
   im_w (projr (get_page_image sample_ltr 3)) = 1000 \<and>
   getpixel (projr (get_page_image sample_ltr 3)) 0 0 = getpixel pano 2000 0 \<and>
   getpixel pano 2000 0 \<noteq> [255, 255, 255] \<and>
   getpixel (projr (get_page_image sample_ltr 3)) 999 0 = [255, 255, 255]"
    by (simp add: get_page_image_def page_rect_def crop_def image_new_def paste_def Let_def
        fill_ink_def white_def sample_ltr_def sample_def pano_def)
  have b: "start_offset sample_scan_half = 25 / 2 \<and>
   pages_x sample_scan_half = 3 \<and> page_width_px sample_scan_half = 389 \<and>
   page_rect sample_scan_half 2 = (803 / 2, 1581 / 2) \<and>
   page_crop_width sample_scan_half 2 = 388 \<and>
   im_w (projr (get_page_image sample_scan_half 2)) = 389 \<and>
   getpixel (projr (get_page_image sample_scan_half 2)) 388 0 = [255, 255, 255]"
    by (simp add: get_page_image_def page_crop_width_def page_rect_def crop_def image_new_def
        paste_def Let_def fill_ink_def white_def py_round_def
        sample_scan_half_def sample_scan_def scan_def)
  have c: "pages_x sample_grey = 3 \<and> mode pano_grey = Mode_L \<and>
   original_image sample_grey = Some pano_grey \<and>
   get_page_image sample_grey 3 = Inl TypeError"
    by (simp add: get_page_image_def page_rect_def crop_def image_new_def Let_def
        fill_ink_def white_def sample_grey_def sample_ltr_def sample_def pano_grey_def)
  from a b c load_sample_scan right_click_sample_scan sample_scan_half_paginated
    sample_grey_paginated show ?thesis
    by blast
qed

theorem page_image_size_and_padding_witness:
  "paginated sample_ltr \<and> (1::int) \<le> 3 \<and> 3 \<le> pages_x sample_ltr \<and>
   original_image sample_ltr = Some pano \<and>
   im_w pano = img_width sample_ltr \<and> im_h pano = img_height sample_ltr \<and>
   0 < img_height sample_ltr \<and> page_height_px sample_ltr = img_height sample_ltr \<and>
   fill_ink (mode pano) white = Inr [255, 255, 255] \<and>
   pages_x sample_ltr = 3 \<and> page_width_px sample_ltr = 1000 \<and>
   page_rect sample_ltr 3 = (2000, 2500) \<and> page_crop_width sample_ltr 3 = 500 \<and>
   im_w (projr (get_page_image sample_ltr 3)) = 1000 \<and>
   im_h (projr (get_page_image sample_ltr 3)) = 773 \<and>
   getpixel (projr (get_page_image sample_ltr 3)) 0 0 = getpixel pano 2000 0 \<and>
   getpixel (projr (get_page_image sample_ltr 3)) 499 772 = getpixel pano 2499 772 \<and>
   getpixel (projr (get_page_image sample_ltr 3)) 500 0 = [255, 255, 255] \<and>
   getpixel (projr (get_page_image sample_ltr 3)) 999 772 = [255, 255, 255] \<and>
   paginated sample \<and> 3 \<le> pages_x sample \<and> original_image sample = Some pano \<and>
   im_w pano = img_width sample \<and> im_h pano = img_height sample \<and>
   0 < img_height sample \<and> page_height_px sample = img_height sample \<and>
   page_rect sample 3 = (0, 500) \<and> page_crop_width sample 3 = 500 \<and>
   im_w (projr (get_page_image sample 3)) = 1000 \<and>
   im_h (projr (get_page_image sample 3)) = 773 \<and>
   getpixel (projr (get_page_image sample 3)) 0 0 = [255, 255, 255] \<and>
   getpixel (projr (get_page_image sample 3)) 499 772 = [255, 255, 255] \<and>
   getpixel (projr (get_page_image sample 3)) 500 0 = getpixel pano 0 0 \<and>
   getpixel (projr (get_page_image sample 3)) 999 772 = getpixel pano 499 772 \<and>
   of_int \<lfloor>start_offset sample\<rfloor> = start_offset sample \<and> (2::int) < pages_x sample \<and>
   page_crop_width sample 2 = page_width_px sample"
proof -
  have a: "paginated sample_ltr" "(1::int) \<le> 3" "3 \<le> pages_x sample_ltr"
    "original_image sample_ltr = Some pano"
    "im_w pano = img_width sample_ltr" "im_h pano = img_height sample_ltr"
    "0 < img_height sample_ltr" "page_height_px sample_ltr = img_height sample_ltr"
    "fill_ink (mode pano) white = Inr [255, 255, 255]"
    by (simp_all add: sample_ltr_paginated)
       (simp_all add: sample_ltr_def sample_def pano_def fill_ink_def white_def)
  have b: "paginated sample" "(1::int) \<le> 3" "3 \<le> pages_x sample"
    "original_image sample = Some pano"
    "im_w pano = img_width sample" "im_h pano = img_height sample"
    "0 < img_height sample" "page_height_px sample = img_height sample"
    "fill_ink (mode pano) white = Inr [255, 255, 255]"
    by (simp_all add: sample_paginated)
       (simp_all add: sample_def pano_def fill_ink_def white_def)
  have b2: "(1::int) \<le> 2" "2 \<le> pages_x sample"
    "of_int \<lfloor>start_offset sample\<rfloor> = start_offset sample" "(2::int) < pages_x sample"
    by (simp_all add: sample_def)
  have c: "pages_x sample_ltr = 3" "page_width_px sample_ltr = 1000"
    "page_height_px sample_ltr = 773" "\<not> right_to_left sample_ltr"
    "page_width_px sample = 1000" "page_height_px sample = 773" "right_to_left sample"
    by (simp_all add: sample_ltr_def sample_def)
  from page_image_size_and_padding [OF a] obtain pl where
    pl: "get_page_image sample_ltr 3 = Inr pl" "im_w pl = page_width_px sample_ltr"
      "im_h pl = page_height_px sample_ltr"
    and pl_pixels: "page_crop_width sample_ltr 3 < page_width_px sample_ltr \<longrightarrow>
              (\<forall>x y. 0 \<le> x \<and> x < page_width_px sample_ltr \<and> 0 \<le> y \<and> y < page_height_px sample_ltr \<longrightarrow>
                 getpixel pl x y =
                   (if right_to_left sample_ltr
                    then (if x < page_width_px sample_ltr - page_crop_width sample_ltr 3
                          then [255, 255, 255]
                          else getpixel pano
                                 (py_round (fst (page_rect sample_ltr 3))
                                    + (x - (page_width_px sample_ltr - page_crop_width sample_ltr 3))) y)
                    else (if x < page_crop_width sample_ltr 3
                          then getpixel pano (py_round (fst (page_rect sample_ltr 3)) + x) y
                          else [255, 255, 255])))"
    by blast
  have pxl: "getpixel pl x y = (if x < 500 then getpixel pano (2000 + x) y else [255, 255, 255])"
    if "0 \<le> x" "x < 1000" "0 \<le> y" "y < 773" for x y
    using pl_pixels that by (simp add: c sample_ltr_page_3)
  from page_image_size_and_padding [OF b] obtain pr where
    pr: "get_page_image sample 3 = Inr pr" "im_w pr = page_width_px sample"
      "im_h pr = page_height_px sample"
    and pr_pixels: "page_crop_width sample 3 < page_width_px sample \<longrightarrow>
              (\<forall>x y. 0 \<le> x \<and> x < page_width_px sample \<and> 0 \<le> y \<and> y < page_height_px sample \<longrightarrow>
                 getpixel pr x y =
                   (if right_to_left sample
                    then (if x < page_width_px sample - page_crop_width sample 3
                          then [255, 255, 255]
                          else getpixel pano
                                 (py_round (fst (page_rect sample 3))
                                    + (x - (page_width_px sample - page_crop_width sample 3))) y)
                    else (if x < page_crop_width sample 3
                          then getpixel pano (py_round (fst (page_rect sample 3)) + x) y
                          else [255, 255, 255])))"
    by blast
  have pxr: "getpixel pr x y = (if x < 500 then [255, 255, 255] else getpixel pano (x - 500) y)"
    if "0 \<le> x" "x < 1000" "0 \<le> y" "y < 773" for x y
    using pr_pixels that by (simp add: c sample_ltr_page_3)
  from page_image_size_and_padding [OF b(1) b2(1,2) b(4-)] b2(3,4)
  have whole: "page_crop_width sample 2 = page_width_px sample"
    by blast
  have l: "getpixel pl 0 0 = getpixel pano 2000 0" "getpixel pl 499 772 = getpixel pano 2499 772"
    "getpixel pl 500 0 = [255, 255, 255]" "getpixel pl 999 772 = [255, 255, 255]"
    by (simp_all add: pxl)
  have r: "getpixel pr 0 0 = [255, 255, 255]" "getpixel pr 499 772 = [255, 255, 255]"
    "getpixel pr 500 0 = getpixel pano 0 0" "getpixel pr 999 772 = getpixel pano 499 772"
    by (simp_all add: pxr)
  show ?thesis
    using a b(1,3-) b2(3,4) whole c(1,2) sample_ltr_page_3 l r by (simp add: pl pr c)
qed

section \<open>Rounding: an empty last page\<close>

lemmas f64_eval = binary64_def exponent_def bit_length.simps py_round_def Let_def

lemma binary64_0 [simp]: "binary64 0 = 0"
  by (simp add: binary64_def)

lemma roundings_A:
  "binary64 (- (1916969588510935 / 2199023255552)) = - (1916969588510935 / 2199023255552)"
  "binary64 (- (361681456505263 / 549755813888)) = - (361681456505263 / 549755813888)"
  "binary64 (- (2628334322004327 / 4398046511104)) = - (2628334322004327 / 4398046511104)"
  "binary64 (- (144672582602105 / 1099511627776)) = - (144672582602105 / 1099511627776)"
  "binary64 (1 / 100) = 5764607523034235 / 576460752303423488"
  "binary64 (12331705039020216609752806704039 / 20282409603651670423947251286016) = 1369094286720631 / 2251799813685248"
  "binary64 (14798046046824258357605226286311 / 20282409603651670423947251286016) = 1642913144064757 / 2251799813685248"
  "binary64 (96 / 125) = 3458764513820541 / 4503599627370496"
  "binary64 (4503599627370496 / 5404319552844595) = 7505999378950827 / 9007199254740992"
  "binary64 (19 / 20) = 4278419646001971 / 4503599627370496"
  "binary64 (4398046511104001 / 4398046511104000) = 4503599627370497 / 4503599627370496"
  "binary64 (6 / 5) = 5404319552844595 / 4503599627370496"
  "binary64 (1000 / 773) = 2913065735685961 / 2251799813685248"
  "binary64 (5 / 2) = 5 / 2"
  "binary64 (1546 / 17) = 1599854095568655 / 17592186044416"
  "binary64 (773) = 773"
  "binary64 (912) = 912"
  "binary64 (1000) = 1000"
  "binary64 (4398046511104001 / 4398046511104) = 4398046511104001 / 4398046511104"
  "binary64 (17598395051255205 / 17592186044416) = 4399598762813801 / 4398046511104"
  "binary64 (2251799813685248000 / 1642913144064757) = 6028024275087719 / 4398046511104"
  "binary64 (2053641430080946176 / 1369094286720631) = 6597069766655999 / 4398046511104"
  "binary64 (6597069766655999 / 4398046511104) = 6597069766655999 / 4398046511104"
  "binary64 (2251799813685248000 / 1369094286720631) = 3616814565052631 / 2199023255552"
  "binary64 (1920) = 1920"
  "binary64 (10995116277759999 / 4398046511104) = 2500"
  "binary64 (2500) = 2500"
  "binary64 (4323455642275676160 / 1642913144064757) = 2893451652042105 / 1099511627776"
  "binary64 (4323455642275676160 / 1369094286720631) = 1736070991225263 / 549755813888"
  "binary64 (3500) = 3500"
  by (simp_all add: f64_eval)


lemma load_wide:
  "load_image_f64 (Loaded pano) ((init 1920 1000)\<lparr>right_to_left := False\<rparr>) ''/scans/pano.png''
     = wide"
  by (simp add: load_image_f64_def load_image_body_f64_def fit_to_window_f64_def
      refresh_view_f64_def init_def pano_def wide_def PAGE_HEIGHT_INCHES_def
      PAGE_WIDTH_INCHES_def py_int_def math_ceil_def os_path_dirname_def py_float_def
      Let_def roundings_A)

lemma scroll_wide:
  "on_scroll_f64 wide \<lparr>ev_x = 0, ev_y = 0, ev_num = 5, ev_delta = Some 0\<rparr> = Done wide_out"
  by (simp add: on_scroll_f64_def refresh_view_f64_def wide_out_def wide_def py_float_def
      Let_def roundings_A)

lemma right_click_wide_out:
  "on_right_click_f64 wide_out \<lparr>ev_x = 912, ev_y = 500, ev_num = 3, ev_delta = Some 0\<rparr>
     = Done wide_clicked"
  by (simp add: on_right_click_f64_def refresh_view_f64_def wide_clicked_def wide_out_def
      wide_def py_float_def math_ceil_def Let_def roundings_A)

lemma pages_of_wide_clicked:
  "page_rect_f64 wide_clicked 1 = (6597069766655999 / 4398046511104, 2500)"
  "page_rect_f64 wide_clicked 2 = (2500, 2500)"
  by (simp_all add: page_rect_f64_def wide_clicked_def wide_out_def wide_def py_float_def
      Let_def roundings_A)

lemma blank_page_of_wide_clicked:
  "\<not> isl (get_page_image_f64 wide_clicked 2)"
  "im_w (projr (get_page_image_f64 wide_clicked 2)) = 1000"
  "getpixel (projr (get_page_image_f64 wide_clicked 2)) 0 0 = [255, 255, 255]"
  "getpixel (projr (get_page_image_f64 wide_clicked 2)) 999 772 = [255, 255, 255]"
  unfolding get_page_image_f64_def pages_of_wide_clicked
  by (simp_all add: crop_def image_new_def paste_def fill_ink_def white_def Let_def
      wide_clicked_def wide_out_def wide_def pano_def)

text \<open>
  C1.  For a page number between 1 and the page count the rectangle that
  \<^verbatim>\<open>export_page\<close> and \<^verbatim>\<open>get_page_image\<close> crop is to satisfy
  \<open>0 \<le> left < right \<le> rasterWidth\<close>.  In exact arithmetic it does
  (\<open>page_rect_ordered\<close>).  The interpreter rounds: a panorama 2500 wide with pages of
  1000 is loaded left-to-right on a canvas of 1920 by 1000; one step of the mouse wheel
  and a right click at canvas x = 912 set the start offset to 1499.9999999999998, inside
  the clamp.  The page count is the ceiling of 1.0000000000000002, which is 2, and the
  left edge of page 2, 1499.9999999999998 + 1000, rounds to 2500, its right edge: the
  rectangle of page 2 is empty, and the page image is a blank page.
\<close>

theorem page_rect_f64_empty_last_page:
  "load_image_f64 (Loaded pano) ((init 1920 1000)\<lparr>right_to_left := False\<rparr>) ''/scans/pano.png''
     = wide \<and>
   on_scroll_f64 wide \<lparr>ev_x = 0, ev_y = 0, ev_num = 5, ev_delta = Some 0\<rparr> = Done wide_out \<and>
   on_right_click_f64 wide_out \<lparr>ev_x = 912, ev_y = 500, ev_num = 3, ev_delta = Some 0\<rparr>
     = Done wide_clicked \<and>
   img_width wide_clicked = 2500 \<and> page_width_px wide_clicked = 1000 \<and>
   \<not> right_to_left wide_clicked \<and>
   start_offset wide_clicked = 6597069766655999 / 4398046511104 \<and>
   0 \<le> start_offset wide_clicked \<and>
   start_offset wide_clicked \<le> of_int (img_width wide_clicked - page_width_px wide_clicked) \<and>
   pages_x wide_clicked = 2 \<and>
   page_rect_f64 wide_clicked 2 = (2500, 2500) \<and>
   \<not> fst (page_rect_f64 wide_clicked 2) < snd (page_rect_f64 wide_clicked 2) \<and>
   page_rect wide_clicked 2 = (10995116277759999 / 4398046511104, 2500) \<and>
   fst (page_rect wide_clicked 2) < snd (page_rect wide_clicked 2) \<and>
   \<not> isl (get_page_image_f64 wide_clicked 2) \<and>
   getpixel (projr (get_page_image_f64 wide_clicked 2)) 0 0 = [255, 255, 255] \<and>
   getpixel (projr (get_page_image_f64 wide_clicked 2)) 999 772 = [255, 255, 255]"
proof -
  have state: "img_width wide_clicked = 2500 \<and> page_width_px wide_clicked = 1000 \<and>
   \<not> right_to_left wide_clicked \<and>
   start_offset wide_clicked = 6597069766655999 / 4398046511104 \<and>
   0 \<le> start_offset wide_clicked \<and>
   start_offset wide_clicked \<le> of_int (img_width wide_clicked - page_width_px wide_clicked) \<and>
   pages_x wide_clicked = 2"
    by (simp add: wide_clicked_def wide_out_def wide_def)
  have exact: "page_rect wide_clicked 2 = (10995116277759999 / 4398046511104, 2500) \<and>
   fst (page_rect wide_clicked 2) < snd (page_rect wide_clicked 2)"
    by (simp add: page_rect_def wide_clicked_def wide_out_def wide_def Let_def)
  have rounded: "page_rect_f64 wide_clicked 2 = (2500, 2500) \<and>
   \<not> fst (page_rect_f64 wide_clicked 2) < snd (page_rect_f64 wide_clicked 2)"
    by (simp add: pages_of_wide_clicked)
  from load_wide scroll_wide right_click_wide_out state exact rounded
    blank_page_of_wide_clicked show ?thesis
    by blast
qed

section \<open>Rounding: pages that do not meet\<close>

lemma roundings_B:
  "binary64 (- (200869613938303 / 274877906944)) = - (200869613938303 / 274877906944)"
  "binary64 (- (144672582602105 / 1099511627776)) = - (144672582602105 / 1099511627776)"
  "binary64 (5395120954571344593978747229569 / 10141204801825835211973625643008) = 149744687610069 / 281474976710656"
  "binary64 (14 / 25) = 1261007895663739 / 2251799813685248"
  "binary64 (19 / 20) = 4278419646001971 / 4503599627370496"
  "binary64 (800 / 773) = 2330452588548769 / 2251799813685248"
  "binary64 (2) = 2"
  "binary64 (137232278353997 / 54975581388800) = 5621034121379717 / 2251799813685248"
  "binary64 (5 / 2) = 5 / 2"
  "binary64 (562949953421312 / 149744687610069) = 2116353208350797 / 562949953421312"
  "binary64 (2116353208350797 / 562949953421312) = 2116353208350797 / 562949953421312"
  "binary64 (1546 / 17) = 1599854095568655 / 17592186044416"
  "binary64 (773) = 773"
  "binary64 (800) = 800"
  "binary64 (1000) = 1000"
  "binary64 (17598395051255205 / 17592186044416) = 4399598762813801 / 4398046511104"
  "binary64 (565066306629662797 / 562949953421312) = 8829161041088481 / 8796093022208"
  "binary64 (1400) = 1400"
  "binary64 (225179981368524800 / 149744687610069) = 413350236006015 / 274877906944"
  "binary64 (2000) = 2000"
  "binary64 (17625254063296481 / 8796093022208) = 550789189478015 / 274877906944"
  "binary64 (1128016260050974797 / 562949953421312) = 8812627031648241 / 4398046511104"
  "binary64 (1405258530344929203 / 562949953421312) = 686161391769985 / 274877906944"
  "binary64 (2500) = 2500"
  "binary64 (394064967394918400 / 149744687610069) = 2893451652042105 / 1099511627776"
  "binary64 (13210673542752241 / 4398046511104) = 825667096422015 / 274877906944"
  by (simp_all add: f64_eval)

lemma roundings_C:
  "binary64 (- (247737330447845 / 1099511627776)) = - (247737330447845 / 1099511627776)"
  "binary64 (- (405083231285895 / 8796093022208)) = - (405083231285895 / 8796093022208)"
  "binary64 (19 / 20) = 4278419646001971 / 4503599627370496"
  "binary64 (15414631298775269657307899798487 / 10141204801825835211973625643008) = 3422735716801577 / 2251799813685248"
  "binary64 (8 / 5) = 3602879701896397 / 2251799813685248"
  "binary64 (1725 / 778) = 4992743802836829 / 2251799813685248"
  "binary64 (875 / 389) = 1266275602168761 / 562949953421312"
  "binary64 (800 / 301) = 5984850003150161 / 2251799813685248"
  "binary64 (42784196460019712 / 3422735716801577) = 25 / 2"
  "binary64 (25 / 2) = 25 / 2"
  "binary64 (19) = 19"
  "binary64 (602 / 17) = 4983762822935733 / 140737488355328"
  "binary64 (301) = 301"
  "binary64 (389) = 389"
  "binary64 (54821391052293063 / 140737488355328) = 6852673881536633 / 17592186044416"
  "binary64 (803 / 2) = 803 / 2"
  "binary64 (1801439850948198400 / 3422735716801577) = 578690330408421 / 1099511627776"
  "binary64 (778) = 778"
  "binary64 (1581 / 2) = 1581 / 2"
  "binary64 (800) = 800"
  "binary64 (1725 / 2) = 1725 / 2"
  "binary64 (875) = 875"
  "binary64 (3152519739159347200 / 3422735716801577) = 8101664625717895 / 8796093022208"
  "binary64 (2359 / 2) = 2359 / 2"
  "binary64 (1400) = 1400"
  by (simp_all add: f64_eval)


lemma load_narrow:
  "load_image_f64 (Loaded pano) ((init 1400 800)\<lparr>right_to_left := False\<rparr>) ''/scans/pano.png''
     = narrow"
  by (simp add: load_image_f64_def load_image_body_f64_def fit_to_window_f64_def
      refresh_view_f64_def init_def pano_def narrow_def wide_def PAGE_HEIGHT_INCHES_def
      PAGE_WIDTH_INCHES_def py_int_def math_ceil_def os_path_dirname_def py_float_def
      Let_def roundings_B)

lemma right_click_narrow:
  "on_right_click_f64 narrow \<lparr>ev_x = 2, ev_y = 500, ev_num = 3, ev_delta = Some 0\<rparr>
     = Done narrow_clicked"
  by (simp add: on_right_click_f64_def refresh_view_f64_def narrow_clicked_def narrow_def
      wide_def py_float_def math_ceil_def Let_def roundings_B)

lemma pages_of_narrow_clicked:
  "page_rect_f64 narrow_clicked 1
     = (2116353208350797 / 562949953421312, 8829161041088481 / 8796093022208)"
  "page_rect_f64 narrow_clicked 2
     = (8829161041088481 / 8796093022208, 550789189478015 / 274877906944)"
  "page_rect_f64 narrow_clicked 3 = (8812627031648241 / 4398046511104, 2500)"
  by (simp_all add: page_rect_f64_def narrow_clicked_def narrow_def wide_def py_float_def
      Let_def roundings_B)

lemma roundings_D:
  "binary64 (- (200869613938303 / 274877906944)) = - (200869613938303 / 274877906944)"
  "binary64 (- (144672582602105 / 1099511627776)) = - (144672582602105 / 1099511627776)"
  "binary64 (2726044806459669 / 1099511627776000) = 2791469881814701 / 1125899906842624"
  "binary64 (11) = 11"
  "binary64 (5819971322964691 / 281474976710656) = 5819971322964691 / 281474976710656"
  "binary64 (3096224743817216 / 149744687610069) = 5819971322964691 / 281474976710656"
  "binary64 (773) = 773"
  "binary64 (800) = 800"
  "binary64 (1000) = 1000"
  "binary64 (287294948033620691 / 281474976710656) = 8977967126050647 / 8796093022208"
  "binary64 (1400) = 1400"
  "binary64 (225179981368524800 / 149744687610069) = 413350236006015 / 274877906944"
  "binary64 (2000) = 2000"
  "binary64 (568769924744276691 / 281474976710656) = 8887030074129323 / 4398046511104"
  "binary64 (17774060148258647 / 8796093022208) = 2221757518532331 / 1099511627776"
  "binary64 (697867470453675309 / 281474976710656) = 2726044806459669 / 1099511627776"
  "binary64 (2500) = 2500"
  "binary64 (394064967394918400 / 149744687610069) = 2893451652042105 / 1099511627776"
  "binary64 (13285076585233323 / 4398046511104) = 3321269146308331 / 1099511627776"
  by (simp_all add: f64_eval)


lemma right_click_narrow_11:
  "on_right_click_f64 narrow \<lparr>ev_x = 11, ev_y = 500, ev_num = 3, ev_delta = Some 0\<rparr>
     = Done narrow_clicked_11"
  by (simp add: on_right_click_f64_def refresh_view_f64_def narrow_clicked_11_def narrow_def
      wide_def py_float_def math_ceil_def Let_def roundings_D)

lemma pages_of_narrow_clicked_11:
  "page_rect_f64 narrow_clicked_11 2
     = (8977967126050647 / 8796093022208, 2221757518532331 / 1099511627776)"
  "page_rect_f64 narrow_clicked_11 3 = (8887030074129323 / 4398046511104, 2500)"
  by (simp_all add: page_rect_f64_def narrow_clicked_11_def narrow_def wide_def py_float_def
      Let_def roundings_D)

lemma load_scanned:
  "load_image_f64 (Loaded scan) ((init 1400 800)\<lparr>right_to_left := False\<rparr>) ''/scans/scan.png''
     = scanned"
  by (simp add: load_image_f64_def load_image_body_f64_def fit_to_window_f64_def
      refresh_view_f64_def init_def scan_def scanned_def sample_scan_def PAGE_HEIGHT_INCHES_def
      PAGE_WIDTH_INCHES_def py_int_def math_ceil_def os_path_dirname_def py_float_def
      Let_def roundings_C)

lemma right_click_scanned:
  "on_right_click_f64 scanned \<lparr>ev_x = 19, ev_y = 100, ev_num = 3, ev_delta = Some 0\<rparr>
     = Done scanned_clicked"
  by (simp add: on_right_click_f64_def refresh_view_f64_def scanned_clicked_def scanned_def
      sample_scan_def py_float_def math_ceil_def Let_def roundings_C)

lemma pages_of_scanned_clicked:
  "page_rect_f64 scanned_clicked 1 = (25 / 2, 803 / 2)"
  "page_rect_f64 scanned_clicked 2 = (803 / 2, 1581 / 2)"
  "page_rect_f64 scanned_clicked 3 = (1581 / 2, 875)"
  by (simp_all add: page_rect_f64_def scanned_clicked_def scanned_def sample_scan_def
      py_float_def Let_def roundings_C)

lemma page_images_of_scanned_clicked:
  "\<not> isl (get_page_image_f64 scanned_clicked 1)"
  "\<not> isl (get_page_image_f64 scanned_clicked 2)"
  "im_w (projr (get_page_image_f64 scanned_clicked 1)) = 389"
  "im_w (projr (get_page_image_f64 scanned_clicked 2)) = 389"
  "getpixel (projr (get_page_image_f64 scanned_clicked 1)) 388 0 = getpixel scan 400 0"
  "getpixel (projr (get_page_image_f64 scanned_clicked 2)) 0 0 = getpixel scan 402 0"
  "getpixel (projr (get_page_image_f64 scanned_clicked 2)) 388 0 = [255, 255, 255]"
  unfolding get_page_image_f64_def pages_of_scanned_clicked
  by (simp_all add: crop_def image_new_def paste_def fill_ink_def white_def py_round_def Let_def
      scanned_clicked_def scanned_def sample_scan_def scan_def)

text \<open>
  C10.  The rectangles of pages 1 to the page count are to be pairwise disjoint, to meet
  in one boundary coordinate from page to page, and to cover the paged strip.  In exact
  arithmetic they do (\<open>pages_partition_exact\<close>).  The interpreter rounds each edge on
  its own.  On the panorama 2500 wide, loaded left-to-right on a canvas of 1400 by 800, a
  right click at canvas x = 2 sets the start offset to 3.7593984962406015; page 2 then
  ends at 2003.7593984962405 and page 3 starts at 2003.7593984962407, so that the two
  share no coordinate and the coordinates between them are on no page.  A right click at
  canvas x = 11 instead sets the start offset to 20.676691729323306; page 2 then ends at
  2020.6766917293235 and page 3 starts at 2020.6766917293232, so that the two overlap.
  And the crop rounds a rectangle to whole pixels: on a raster 875 wide with pages of
  389, a right click at canvas x = 19 sets the start offset to 12.5; the image of page 1
  ends with raster column 400 and the image of page 2 starts with raster column 402 and
  ends with a column of padding, so that column 401 of the paged strip is on no page
  image.
\<close>

theorem pages_f64_gap_and_overlap:
  "load_image_f64 (Loaded pano) ((init 1400 800)\<lparr>right_to_left := False\<rparr>) ''/scans/pano.png''
     = narrow \<and>
   on_right_click_f64 narrow \<lparr>ev_x = 2, ev_y = 500, ev_num = 3, ev_delta = Some 0\<rparr>
     = Done narrow_clicked \<and>
   pages_x narrow_clicked = 3 \<and>
   snd (page_rect_f64 narrow_clicked 2) = 550789189478015 / 274877906944 \<and>
   fst (page_rect_f64 narrow_clicked 3) = 8812627031648241 / 4398046511104 \<and>
   snd (page_rect_f64 narrow_clicked 2) < fst (page_rect_f64 narrow_clicked 3) \<and>
   on_right_click_f64 narrow \<lparr>ev_x = 11, ev_y = 500, ev_num = 3, ev_delta = Some 0\<rparr>
     = Done narrow_clicked_11 \<and>
   pages_x narrow_clicked_11 = 3 \<and>
   page_rect_f64 narrow_clicked_11 2
     = (8977967126050647 / 8796093022208, 2221757518532331 / 1099511627776) \<and>
   page_rect_f64 narrow_clicked_11 3 = (8887030074129323 / 4398046511104, 2500) \<and>
   fst (page_rect_f64 narrow_clicked_11 2) \<le> fst (page_rect_f64 narrow_clicked_11 3) \<and>
   fst (page_rect_f64 narrow_clicked_11 3) < snd (page_rect_f64 narrow_clicked_11 2) \<and>
   load_image_f64 (Loaded scan) ((init 1400 800)\<lparr>right_to_left := False\<rparr>) ''/scans/scan.png''
     = scanned \<and>
   on_right_click_f64 scanned \<lparr>ev_x = 19, ev_y = 100, ev_num = 3, ev_delta = Some 0\<rparr>
     = Done scanned_clicked \<and>
   start_offset scanned_clicked = 25 / 2 \<and> pages_x scanned_clicked = 3 \<and>
   page_width_px scanned_clicked = 389 \<and>
   page_rect_f64 scanned_clicked 1 = (25 / 2, 803 / 2) \<and>
   page_rect_f64 scanned_clicked 2 = (803 / 2, 1581 / 2) \<and>
   getpixel (projr (get_page_image_f64 scanned_clicked 1)) 388 0 = getpixel scan 400 0 \<and>
   getpixel (projr (get_page_image_f64 scanned_clicked 2)) 0 0 = getpixel scan 402 0 \<and>
   getpixel (projr (get_page_image_f64 scanned_clicked 2)) 388 0 = [255, 255, 255]"
proof -
  have gap: "pages_x narrow_clicked = 3 \<and>
   snd (page_rect_f64 narrow_clicked 2) = 550789189478015 / 274877906944 \<and>
   fst (page_rect_f64 narrow_clicked 3) = 8812627031648241 / 4398046511104 \<and>
   snd (page_rect_f64 narrow_clicked 2) < fst (page_rect_f64 narrow_clicked 3)"
    by (simp add: pages_of_narrow_clicked) (simp add: narrow_clicked_def narrow_def wide_def)
  have overlap: "pages_x narrow_clicked_11 = 3 \<and>
   fst (page_rect_f64 narrow_clicked_11 2) \<le> fst (page_rect_f64 narrow_clicked_11 3) \<and>
   fst (page_rect_f64 narrow_clicked_11 3) < snd (page_rect_f64 narrow_clicked_11 2)"
    by (simp add: pages_of_narrow_clicked_11) (simp add: narrow_clicked_11_def narrow_def wide_def)
  have state: "start_offset scanned_clicked = 25 / 2 \<and> pages_x scanned_clicked = 3 \<and>
   page_width_px scanned_clicked = 389"
    by (simp add: scanned_clicked_def scanned_def sample_scan_def)
  from load_narrow right_click_narrow gap right_click_narrow_11 overlap
    pages_of_narrow_clicked_11 load_scanned right_click_scanned state
    pages_of_scanned_clicked(1,2) page_images_of_scanned_clicked(5-7) show ?thesis
    by blast
qed


end
